theory Spec2Isabelle
  imports Main "HOL-Library.Sublist" "HOL-Library.Multiset" "HOL-Library.AList"
begin

section \<open>Python values and errors\<close>

text \<open>
  The model covers \<^verbatim>\<open>src/adi/ad9081.py\<close>: the two module-level helpers
  \<^verbatim>\<open>_map_to_dict\<close> and \<^verbatim>\<open>_sortconv\<close>, the constructor of class
  \<^verbatim>\<open>ad9081\<close> and its property accessors. Python strings are modelled as
  \<^typ>\<open>string\<close> (ASCII channel names and labels), Python integers as \<^typ>\<open>int\<close>,
  a raised exception as the \<open>Inl\<close> side of a sum.
\<close>

datatype error =
  ValueError
  | IndexError
  | KeyError
  | Exception string
  | ExternalError string

subsection \<open>String primitives\<close>

text \<open>\<^verbatim>\<open>sub in s\<close> on strings: \<open>sub\<close> occurs in \<open>s\<close> as a contiguous substring.\<close>

fun contains :: "string \<Rightarrow> string \<Rightarrow> bool" where
  "contains sub [] = (sub = [])"
| "contains sub (c # cs) = (prefix sub (c # cs) \<or> contains sub cs)"

text \<open>\<^verbatim>\<open>s.find(sub)\<close>: the index of the first occurrence, \<open>-1\<close> when there is none.\<close>

fun py_find :: "string \<Rightarrow> string \<Rightarrow> int" where
  "py_find [] sub = (if sub = [] then 0 else - 1)"
| "py_find (c # cs) sub =
     (if prefix sub (c # cs) then 0
      else (let r = py_find cs sub in if r < 0 then - 1 else r + 1))"

text \<open>
  \<^verbatim>\<open>s[a:b]\<close>: a negative bound counts from the end, and both bounds are clamped to
  the string.
\<close>

definition py_index_bound :: "nat \<Rightarrow> int \<Rightarrow> nat" where
  "py_index_bound n i = (if i < 0 then nat (int n + i) else min n (nat i))"

definition py_slice :: "string \<Rightarrow> int \<Rightarrow> int \<Rightarrow> string" where
  "py_slice s a b =
     (let lo = py_index_bound (length s) a; hi = py_index_bound (length s) b
      in take (hi - lo) (drop lo s))"

text \<open>
  \<^verbatim>\<open>s.split(sep)\<close> with a separator: the text between successive non-overlapping
  occurrences of \<open>sep\<close>, scanned from the left. An empty separator raises
  \<^verbatim>\<open>ValueError\<close>.
\<close>

function split_from :: "string \<Rightarrow> string \<Rightarrow> string \<Rightarrow> string list" where
  "split_from sep cur s =
     (if s = [] then [cur]
      else if sep \<noteq> [] \<and> prefix sep s then cur # split_from sep [] (drop (length sep) s)
      else split_from sep (cur @ [hd s]) (tl s))"
  by pat_completeness auto
termination
  by (relation "measure (\<lambda>(sep, cur, s). length s)") (auto simp: neq_Nil_conv)

definition py_split :: "string \<Rightarrow> string \<Rightarrow> error + string list" where
  "py_split s sep = (if sep = [] then Inl ValueError else Inr (split_from sep [] s))"

subsection \<open>The builtin \<^verbatim>\<open>int\<close> on a string\<close>

text \<open>
  \<^verbatim>\<open>int(s)\<close> in base ten: surrounding whitespace is dropped, one sign is allowed,
  then decimal digits, where a single underscore may stand between two digits.
  Anything else raises \<^verbatim>\<open>ValueError\<close>. Only ASCII whitespace and digits are
  covered, and the interpreter's configurable bound on the number of digits is not.
\<close>

definition is_space :: "char \<Rightarrow> bool" where
  "is_space c =
     (let n = (of_char c :: nat) in (9 \<le> n \<and> n \<le> 13) \<or> (28 \<le> n \<and> n \<le> 32))"

definition is_digit :: "char \<Rightarrow> bool" where
  "is_digit c = (let n = (of_char c :: nat) in 48 \<le> n \<and> n \<le> 57)"

definition digit_val :: "char \<Rightarrow> int" where
  "digit_val c = int (of_char c) - 48"

fun parse_digits :: "int \<Rightarrow> string \<Rightarrow> int option" where
  "parse_digits acc [] = Some acc"
| "parse_digits acc [c] = (if is_digit c then Some (10 * acc + digit_val c) else None)"
| "parse_digits acc (c # d # cs) =
     (if is_digit c then parse_digits (10 * acc + digit_val c) (d # cs)
      else if c = CHR ''_'' \<and> is_digit d then parse_digits (10 * acc + digit_val d) cs
      else None)"

fun parse_nat :: "string \<Rightarrow> int option" where
  "parse_nat [] = None"
| "parse_nat (c # cs) = (if is_digit c then parse_digits (digit_val c) cs else None)"

definition py_strip :: "string \<Rightarrow> string" where
  "py_strip s = rev (dropWhile is_space (rev (dropWhile is_space s)))"

definition py_int :: "string \<Rightarrow> error + int" where
  "py_int s =
     (case py_strip s of
        [] \<Rightarrow> Inl ValueError
      | c # cs \<Rightarrow>
          (case (if c = CHR ''-'' then map_option uminus (parse_nat cs)
                 else if c = CHR ''+'' then parse_nat cs
                 else parse_nat (c # cs)) of
             None \<Rightarrow> Inl ValueError
           | Some n \<Rightarrow> Inr n))"

text \<open>The number a string of decimal digits denotes: what \<open>py_int\<close> returns on it.\<close>

definition decimal :: "string \<Rightarrow> int" where
  "decimal d = foldl (\<lambda>a c. 10 * a + digit_val c) 0 d"

subsection \<open>The builtin \<^verbatim>\<open>sorted\<close> with a key\<close>

text \<open>
  \<^verbatim>\<open>sorted(xs, key=f)\<close> first computes the key of every element, in list order
  (the first key that raises ends the call), then sorts stably by key.
\<close>

fun keys_of :: "('a \<Rightarrow> error + int) \<Rightarrow> 'a list \<Rightarrow> error + int list" where
  "keys_of f [] = Inr []"
| "keys_of f (x # xs) =
     (case f x of
        Inl e \<Rightarrow> Inl e
      | Inr k \<Rightarrow> (case keys_of f xs of Inl e \<Rightarrow> Inl e | Inr ks \<Rightarrow> Inr (k # ks)))"

definition py_sorted :: "'a list \<Rightarrow> ('a \<Rightarrow> error + int) \<Rightarrow> error + 'a list" where
  "py_sorted xs f =
     (case keys_of f xs of
        Inl e \<Rightarrow> Inl e
      | Inr ks \<Rightarrow> Inr (map snd (sort_key fst (zip ks xs))))"

section \<open>\<^verbatim>\<open>_sortconv\<close>\<close>

definition ignoreadc :: "string \<Rightarrow> error + int" where
  "ignoreadc w = py_int (py_slice w (int (length ''voltage'')) (py_find w ''_''))"

definition ignorealt :: "string \<Rightarrow> error + int" where
  "ignorealt w = py_int (drop (length ''altvoltage'') w)"

text \<open>
  The loop \<^verbatim>\<open>for i in range(len(tmpI))\<close>: \<open>tmpI[i]\<close> is always in range,
  \<open>tmpQ[i]\<close> raises \<^verbatim>\<open>IndexError\<close> when \<open>i\<close> is not below \<open>len(tmpQ)\<close>.
\<close>

fun sortconv_loop ::
  "bool \<Rightarrow> string list \<Rightarrow> string list \<Rightarrow> nat list \<Rightarrow> string list \<Rightarrow> error + string list"
where
  "sortconv_loop noq tmpI tmpQ [] chans_names_out = Inr chans_names_out"
| "sortconv_loop noq tmpI tmpQ (i # rest) chans_names_out =
     (let out1 = chans_names_out @ [tmpI ! i] in
      if \<not> noq then
        (if i < length tmpQ then sortconv_loop noq tmpI tmpQ rest (out1 @ [tmpQ ! i])
         else Inl IndexError)
      else sortconv_loop noq tmpI tmpQ rest out1)"

definition sortconv :: "string list \<Rightarrow> bool \<Rightarrow> bool \<Rightarrow> error + string list" where
  "sortconv chans_names noq dds =
     (let tmpI = filter (contains ''_i'') chans_names;
          tmpQ = filter (contains ''_q'') chans_names;
          filt = (if dds then ignorealt else ignoreadc);
          tmpI = (if dds then chans_names else tmpI);
          noq = (if dds then True else noq)
      in case py_sorted tmpI filt of
           Inl e \<Rightarrow> Inl e
         | Inr tmpI \<Rightarrow>
             (case py_sorted tmpQ filt of
                Inl e \<Rightarrow> Inl e
              | Inr tmpQ \<Rightarrow> sortconv_loop noq tmpI tmpQ [0..<length tmpI] []))"

section \<open>Channels and the path map\<close>

text \<open>
  A channel of the IIO context, with the fields the constructor reads: \<^verbatim>\<open>_id\<close>,
  \<^verbatim>\<open>attrs\<close> (attribute name to value; only membership of \<^verbatim>\<open>"label"\<close> and its
  value are read), \<^verbatim>\<open>scan_element\<close> and \<^verbatim>\<open>output\<close> (here \<open>is_output\<close>).
\<close>

record channel =
  ch_id :: string
  attrs :: "(string \<times> string) list"
  scan_element :: bool
  is_output :: bool

text \<open>
  A Python \<^verbatim>\<open>dict\<close> keeps its keys in insertion order, and the constructor iterates
  over the path map, so a dictionary is an association list: \<open>map_of\<close> reads a key,
  \<open>AList.update\<close> overwrites a key in place or appends a new one at the end. The
  innermost dictionary \<^verbatim>\<open>{"channels": [...]}\<close> has this one fixed key and is a
  record.
\<close>

record fdc_entry =
  channels :: "string list"

type_synonym fdc_dict = "(string \<times> fdc_entry) list"
type_synonym cdc_dict = "(string \<times> fdc_dict) list"
type_synonym path_dict = "(string \<times> cdc_dict) list"

text \<open>The keys of a Python dictionary are pairwise different.\<close>

definition is_dict :: "('k \<times> 'v) list \<Rightarrow> bool" where
  "is_dict d = distinct (map fst d)"

text \<open>
  Line 41: \<^verbatim>\<open>fddc, cddc, adc = ch.attrs["label"].value.split("->")\<close>. A missing
  label raises \<^verbatim>\<open>KeyError\<close>; unpacking anything but three tokens raises
  \<^verbatim>\<open>ValueError\<close>.
\<close>

definition label_triple :: "channel \<Rightarrow> error + (string \<times> string \<times> string)" where
  "label_triple ch =
     (case map_of (attrs ch) ''label'' of
        None \<Rightarrow> Inl KeyError
      | Some label \<Rightarrow>
          (case py_split label ''->'' of
             Inl e \<Rightarrow> Inl e
           | Inr toks \<Rightarrow>
               (case toks of
                  [fddc, cddc, adc] \<Rightarrow> Inr (fddc, cddc, adc)
                | _ \<Rightarrow> Inl ValueError)))"

definition map_to_dict :: "path_dict \<Rightarrow> channel \<Rightarrow> error + path_dict" where
  "map_to_dict paths ch =
     (case label_triple ch of
        Inl e \<Rightarrow> Inl e
      | Inr (fddc, cddc, adc) \<Rightarrow>
          (let paths = (if adc \<notin> set (map fst paths) then AList.update adc [] paths else paths)
           in case map_of paths adc of
                None \<Rightarrow> Inl KeyError
              | Some cd \<Rightarrow>
                  (let cd = (if cddc \<notin> set (map fst cd) then AList.update cddc [] cd else cd)
                   in case map_of cd cddc of
                        None \<Rightarrow> Inl KeyError
                      | Some fd \<Rightarrow>
                          (if fddc \<notin> set (map fst fd) then
                             Inr (AList.update adc
                                   (AList.update cddc
                                     (AList.update fddc \<lparr>channels = [ch_id ch]\<rparr> fd) cd) paths)
                           else
                             (case map_of fd fddc of
                                None \<Rightarrow> Inl KeyError
                              | Some e \<Rightarrow>
                                  Inr (AList.update adc
                                        (AList.update cddc
                                          (AList.update fddc (e\<lparr>channels := channels e @ [ch_id ch]\<rparr>) fd)
                                          cd) paths))))))"

text \<open>Lines 110 to 114: the loop over the receive device's channels.\<close>

fun build_paths :: "path_dict \<Rightarrow> channel list \<Rightarrow> error + path_dict" where
  "build_paths paths [] = Inr paths"
| "build_paths paths (ch # rest) =
     (if ''label'' \<in> set (map fst (attrs ch)) then
        (case map_to_dict paths ch of
           Inl e \<Rightarrow> Inl e
         | Inr paths' \<Rightarrow> build_paths paths' rest)
      else build_paths paths rest)"

text \<open>Reading \<^verbatim>\<open>paths[adc][cddc][fddc]["channels"]\<close>, \<open>None\<close> when a key is missing.\<close>

definition leaf_at :: "path_dict \<Rightarrow> string \<Rightarrow> string \<Rightarrow> string \<Rightarrow> string list option" where
  "leaf_at paths adc cddc fddc =
     (case map_of paths adc of
        None \<Rightarrow> None
      | Some cd \<Rightarrow>
          (case map_of cd cddc of
             None \<Rightarrow> None
           | Some fd \<Rightarrow> map_option channels (map_of fd fddc)))"

section \<open>The object and its constructor\<close>

text \<open>
  The attributes of an \<^verbatim>\<open>ad9081\<close> object (the leading underscore of the Python
  names is dropped), together with the state \<open>ctrl\<close> of the external device that the
  attribute accessors read and write.
\<close>

record 'd ad9081 =
  path_map :: path_dict
  rx_channel_names :: "string list"
  tx_channel_names :: "string list"
  tx_control_channel_names :: "string list"
  rx_coarse_ddc_channel_names :: "string list"
  tx_coarse_duc_channel_names :: "string list"
  rx_fine_ddc_channel_names :: "string list"
  tx_fine_duc_channel_names :: "string list"
  dds_channel_names :: "string list"
  rx_buffer_size :: int
  ctrl :: 'd

text \<open>The two devices the constructor finds in the context, as their channel lists.\<close>

record iio_context =
  rxadc :: "channel list"
  txdac :: "channel list"

text \<open>Lines 118 to 125: collecting the data and DDS channel names.\<close>

fun collect_rx :: "channel list \<Rightarrow> 'd ad9081 \<Rightarrow> 'd ad9081" where
  "collect_rx [] self = self"
| "collect_rx (ch # rest) self =
     (if scan_element ch \<and> \<not> is_output ch then
        collect_rx rest (self\<lparr>rx_channel_names := rx_channel_names self @ [ch_id ch]\<rparr>)
      else collect_rx rest self)"

fun collect_tx :: "channel list \<Rightarrow> 'd ad9081 \<Rightarrow> 'd ad9081" where
  "collect_tx [] self = self"
| "collect_tx (ch # rest) self =
     (if scan_element ch then
        collect_tx rest (self\<lparr>tx_channel_names := tx_channel_names self @ [ch_id ch]\<rparr>)
      else collect_tx rest (self\<lparr>dds_channel_names := dds_channel_names self @ [ch_id ch]\<rparr>))"

text \<open>
  Lines 137 to 139: \<^verbatim>\<open>for fdc in paths[converter][cdc]: channels += ...\<close>, over the
  keys of the fine-stage dictionary.
\<close>

fun gather_channels :: "fdc_dict \<Rightarrow> string list \<Rightarrow> string list \<Rightarrow> error + string list" where
  "gather_channels fd [] chans = Inr chans"
| "gather_channels fd (fdc # rest) chans =
     (case map_of fd fdc of
        None \<Rightarrow> Inl KeyError
      | Some e \<Rightarrow> gather_channels fd rest (chans @ channels e))"

text \<open>
  Lines 137 to 146, the body of the loop over the coarse stages of one converter.
  \<^verbatim>\<open>channels[0]\<close> raises \<^verbatim>\<open>IndexError\<close> on an empty list, before anything is
  appended.
\<close>

definition derive_group :: "string \<Rightarrow> fdc_dict \<Rightarrow> 'd ad9081 \<Rightarrow> error + 'd ad9081" where
  "derive_group converter fd self =
     (case gather_channels fd (map fst fd) [] of
        Inl e \<Rightarrow> Inl e
      | Inr chans \<Rightarrow>
          (let chans = filter (contains ''_i'') chans in
           if contains ''ADC'' converter then
             (case chans of
                [] \<Rightarrow> Inl IndexError
              | c0 # _ \<Rightarrow>
                  Inr (self\<lparr>rx_coarse_ddc_channel_names := rx_coarse_ddc_channel_names self @ [c0],
                            rx_fine_ddc_channel_names := rx_fine_ddc_channel_names self @ chans\<rparr>))
           else
             (case chans of
                [] \<Rightarrow> Inl IndexError
              | c0 # _ \<Rightarrow>
                  Inr (self\<lparr>tx_coarse_duc_channel_names := tx_coarse_duc_channel_names self @ [c0],
                            tx_fine_duc_channel_names := tx_fine_duc_channel_names self @ chans\<rparr>))))"

text \<open>Line 136: \<^verbatim>\<open>for cdc in paths[converter]\<close>.\<close>

fun derive_cdcs :: "string \<Rightarrow> cdc_dict \<Rightarrow> string list \<Rightarrow> 'd ad9081 \<Rightarrow> error + 'd ad9081" where
  "derive_cdcs converter cd [] self = Inr self"
| "derive_cdcs converter cd (cdc # rest) self =
     (case map_of cd cdc of
        None \<Rightarrow> Inl KeyError
      | Some fd \<Rightarrow>
          (case derive_group converter fd self of
             Inl e \<Rightarrow> Inl e
           | Inr self' \<Rightarrow> derive_cdcs converter cd rest self'))"

text \<open>Line 135: \<^verbatim>\<open>for converter in paths\<close>.\<close>

fun derive_converters :: "path_dict \<Rightarrow> string list \<Rightarrow> 'd ad9081 \<Rightarrow> error + 'd ad9081" where
  "derive_converters paths [] self = Inr self"
| "derive_converters paths (converter # rest) self =
     (case map_of paths converter of
        None \<Rightarrow> Inl KeyError
      | Some cd \<Rightarrow>
          (case derive_cdcs converter cd (map fst cd) self of
             Inl e \<Rightarrow> Inl e
           | Inr self' \<Rightarrow> derive_converters paths rest self'))"

text \<open>
  \<^verbatim>\<open>__init__\<close>, from the channels of the two devices. The argument \<open>self\<close> holds the
  attribute values the object starts from (the class attributes, and the device
  state); the base-class initialiser \<^verbatim>\<open>rx_tx.__init__\<close> is outside this file and is
  not modelled.
\<close>

definition init :: "iio_context \<Rightarrow> 'd ad9081 \<Rightarrow> error + 'd ad9081" where
  "init ctx self =
     (case build_paths [] (rxadc ctx) of
        Inl e \<Rightarrow> Inl e
      | Inr paths \<Rightarrow>
          (let self = self\<lparr>path_map := paths\<rparr>;
               self = collect_rx (rxadc ctx) self;
               self = collect_tx (txdac ctx) self
           in case sortconv (rx_channel_names self) False False of
                Inl e \<Rightarrow> Inl e
              | Inr rx \<Rightarrow>
                  (case sortconv (tx_channel_names self) False False of
                     Inl e \<Rightarrow> Inl e
                   | Inr tx \<Rightarrow>
                       (case sortconv (dds_channel_names self) False True of
                          Inl e \<Rightarrow> Inl e
                        | Inr dds \<Rightarrow>
                            (case derive_converters paths (map fst paths)
                                    (self\<lparr>rx_channel_names := rx,
                                          tx_channel_names := tx,
                                          dds_channel_names := dds,
                                          rx_fine_ddc_channel_names := [],
                                          rx_coarse_ddc_channel_names := []\<rparr>) of
                               Inl e \<Rightarrow> Inl e
                             | Inr self' \<Rightarrow> Inr (self'\<lparr>rx_buffer_size := 2 ^ 16\<rparr>))))))"

section \<open>The attribute accessors\<close>

text \<open>
  The properties of the class delegate to the helpers \<^verbatim>\<open>_get_iio_attr\<close>,
  \<^verbatim>\<open>_get_iio_attr_str\<close>, \<^verbatim>\<open>_get_iio_attr_vec\<close>, \<^verbatim>\<open>_get_iio_dev_attr\<close> and
  their \<^verbatim>\<open>_set_\<close> counterparts, which the class inherits from a module outside
  this file. They are parameters of the model: a read takes the device state, the
  channel name (or names), the attribute name and the output flag and returns a value
  or an error; a write returns its outcome and the device state it leaves.
  An attribute value is a number or a string.
\<close>

datatype attr_value = Num int | Str string

record 'd attribute_layer =
  get_iio_attr :: "'d \<Rightarrow> string \<Rightarrow> string \<Rightarrow> bool \<Rightarrow> error + attr_value"
  get_iio_attr_str :: "'d \<Rightarrow> string \<Rightarrow> string \<Rightarrow> bool \<Rightarrow> error + attr_value"
  get_iio_attr_vec :: "'d \<Rightarrow> string list \<Rightarrow> string \<Rightarrow> bool \<Rightarrow> error + attr_value list"
  get_iio_dev_attr :: "'d \<Rightarrow> string \<Rightarrow> error + attr_value"
  set_iio_attr :: "'d \<Rightarrow> string \<Rightarrow> string \<Rightarrow> bool \<Rightarrow> attr_value \<Rightarrow> (error + unit) \<times> 'd"
  set_iio_attr_str :: "'d \<Rightarrow> string \<Rightarrow> string \<Rightarrow> bool \<Rightarrow> attr_value \<Rightarrow> (error + unit) \<times> 'd"
  set_iio_attr_vec ::
    "'d \<Rightarrow> string list \<Rightarrow> string \<Rightarrow> bool \<Rightarrow> attr_value list \<Rightarrow> (error + unit) \<times> 'd"
  set_iio_dev_attr :: "'d \<Rightarrow> string \<Rightarrow> attr_value \<Rightarrow> (error + unit) \<times> 'd"

text \<open>A setter returns the outcome of the write and the object with the device as written.\<close>

definition write_ctrl :: "'d ad9081 \<Rightarrow> (error + unit) \<times> 'd \<Rightarrow> (error + unit) \<times> 'd ad9081" where
  "write_ctrl self r = (fst r, self\<lparr>ctrl := snd r\<rparr>)"

definition get_path_map :: "'d ad9081 \<Rightarrow> path_dict" where
  "get_path_map self = path_map self"

definition get_rx_channel_nco_frequencies :: "'d attribute_layer \<Rightarrow> 'd ad9081 \<Rightarrow> error + attr_value list" where
  "get_rx_channel_nco_frequencies L self =
     get_iio_attr_vec L (ctrl self) (rx_fine_ddc_channel_names self) ''channel_nco_frequency'' False"

definition set_rx_channel_nco_frequencies ::
  "'d attribute_layer \<Rightarrow> attr_value list \<Rightarrow> 'd ad9081 \<Rightarrow> (error + unit) \<times> 'd ad9081"
where
  "set_rx_channel_nco_frequencies L value self =
     write_ctrl self
       (set_iio_attr_vec L (ctrl self) (rx_fine_ddc_channel_names self) ''channel_nco_frequency'' False value)"

definition get_rx_channel_nco_phases :: "'d attribute_layer \<Rightarrow> 'd ad9081 \<Rightarrow> error + attr_value list" where
  "get_rx_channel_nco_phases L self =
     get_iio_attr_vec L (ctrl self) (rx_fine_ddc_channel_names self) ''channel_nco_phase'' False"

definition set_rx_channel_nco_phases ::
  "'d attribute_layer \<Rightarrow> attr_value list \<Rightarrow> 'd ad9081 \<Rightarrow> (error + unit) \<times> 'd ad9081"
where
  "set_rx_channel_nco_phases L value self =
     write_ctrl self
       (set_iio_attr_vec L (ctrl self) (rx_fine_ddc_channel_names self) ''channel_nco_phase'' False value)"

definition get_rx_main_nco_frequencies :: "'d attribute_layer \<Rightarrow> 'd ad9081 \<Rightarrow> error + attr_value list" where
  "get_rx_main_nco_frequencies L self =
     get_iio_attr_vec L (ctrl self) (rx_coarse_ddc_channel_names self) ''main_nco_frequency'' False"

definition set_rx_main_nco_frequencies ::
  "'d attribute_layer \<Rightarrow> attr_value list \<Rightarrow> 'd ad9081 \<Rightarrow> (error + unit) \<times> 'd ad9081"
where
  "set_rx_main_nco_frequencies L value self =
     write_ctrl self
       (set_iio_attr_vec L (ctrl self) (rx_coarse_ddc_channel_names self) ''main_nco_frequency'' False value)"

definition get_rx_main_nco_phases :: "'d attribute_layer \<Rightarrow> 'd ad9081 \<Rightarrow> error + attr_value list" where
  "get_rx_main_nco_phases L self =
     get_iio_attr_vec L (ctrl self) (rx_coarse_ddc_channel_names self) ''main_nco_phase'' False"

definition set_rx_main_nco_phases ::
  "'d attribute_layer \<Rightarrow> attr_value list \<Rightarrow> 'd ad9081 \<Rightarrow> (error + unit) \<times> 'd ad9081"
where
  "set_rx_main_nco_phases L value self =
     write_ctrl self
       (set_iio_attr_vec L (ctrl self) (rx_coarse_ddc_channel_names self) ''main_nco_phase'' False value)"

definition get_tx_channel_nco_frequencies :: "'d attribute_layer \<Rightarrow> 'd ad9081 \<Rightarrow> error + attr_value list" where
  "get_tx_channel_nco_frequencies L self =
     get_iio_attr_vec L (ctrl self) (tx_fine_duc_channel_names self) ''channel_nco_frequency'' True"

definition set_tx_channel_nco_frequencies ::
  "'d attribute_layer \<Rightarrow> attr_value list \<Rightarrow> 'd ad9081 \<Rightarrow> (error + unit) \<times> 'd ad9081"
where
  "set_tx_channel_nco_frequencies L value self =
     write_ctrl self
       (set_iio_attr_vec L (ctrl self) (tx_fine_duc_channel_names self) ''channel_nco_frequency'' True value)"

definition get_tx_channel_nco_phases :: "'d attribute_layer \<Rightarrow> 'd ad9081 \<Rightarrow> error + attr_value list" where
  "get_tx_channel_nco_phases L self =
     get_iio_attr_vec L (ctrl self) (tx_fine_duc_channel_names self) ''channel_nco_phase'' True"

definition set_tx_channel_nco_phases ::
  "'d attribute_layer \<Rightarrow> attr_value list \<Rightarrow> 'd ad9081 \<Rightarrow> (error + unit) \<times> 'd ad9081"
where
  "set_tx_channel_nco_phases L value self =
     write_ctrl self
       (set_iio_attr_vec L (ctrl self) (tx_fine_duc_channel_names self) ''channel_nco_phase'' True value)"

definition get_tx_main_nco_frequencies :: "'d attribute_layer \<Rightarrow> 'd ad9081 \<Rightarrow> error + attr_value list" where
  "get_tx_main_nco_frequencies L self =
     get_iio_attr_vec L (ctrl self) (tx_coarse_duc_channel_names self) ''main_nco_frequency'' True"

definition set_tx_main_nco_frequencies ::
  "'d attribute_layer \<Rightarrow> attr_value list \<Rightarrow> 'd ad9081 \<Rightarrow> (error + unit) \<times> 'd ad9081"
where
  "set_tx_main_nco_frequencies L value self =
     write_ctrl self
       (set_iio_attr_vec L (ctrl self) (tx_coarse_duc_channel_names self) ''main_nco_frequency'' True value)"

definition get_tx_main_nco_phases :: "'d attribute_layer \<Rightarrow> 'd ad9081 \<Rightarrow> error + attr_value list" where
  "get_tx_main_nco_phases L self =
     get_iio_attr_vec L (ctrl self) (tx_coarse_duc_channel_names self) ''main_nco_phase'' True"

definition set_tx_main_nco_phases ::
  "'d attribute_layer \<Rightarrow> attr_value list \<Rightarrow> 'd ad9081 \<Rightarrow> (error + unit) \<times> 'd ad9081"
where
  "set_tx_main_nco_phases L value self =
     write_ctrl self
       (set_iio_attr_vec L (ctrl self) (tx_coarse_duc_channel_names self) ''main_nco_phase'' True value)"

definition get_rx_test_mode :: "'d attribute_layer \<Rightarrow> 'd ad9081 \<Rightarrow> error + attr_value" where
  "get_rx_test_mode L self = get_iio_attr_str L (ctrl self) ''voltage0_i'' ''test_mode'' False"

definition set_rx_test_mode ::
  "'d attribute_layer \<Rightarrow> attr_value \<Rightarrow> 'd ad9081 \<Rightarrow> (error + unit) \<times> 'd ad9081"
where
  "set_rx_test_mode L value self =
     write_ctrl self (set_iio_attr L (ctrl self) ''voltage0_i'' ''test_mode'' False value)"

definition get_rx_nyquist_zone :: "'d attribute_layer \<Rightarrow> 'd ad9081 \<Rightarrow> error + attr_value" where
  "get_rx_nyquist_zone L self = get_iio_attr L (ctrl self) ''voltage0_i'' ''nyquist_zone'' False"

definition set_rx_nyquist_zone ::
  "'d attribute_layer \<Rightarrow> attr_value \<Rightarrow> 'd ad9081 \<Rightarrow> (error + unit) \<times> 'd ad9081"
where
  "set_rx_nyquist_zone L value self =
     write_ctrl self (set_iio_attr_str L (ctrl self) ''voltage0_i'' ''nyquist_zone'' False value)"

definition get_tx_main_ffh_index :: "'d attribute_layer \<Rightarrow> 'd ad9081 \<Rightarrow> error + attr_value" where
  "get_tx_main_ffh_index L self = get_iio_attr L (ctrl self) ''voltage0_i'' ''main_ffh_index'' True"

definition set_tx_main_ffh_index ::
  "'d attribute_layer \<Rightarrow> attr_value \<Rightarrow> 'd ad9081 \<Rightarrow> (error + unit) \<times> 'd ad9081"
where
  "set_tx_main_ffh_index L value self =
     write_ctrl self (set_iio_attr L (ctrl self) ''voltage0_i'' ''main_ffh_index'' True value)"

definition get_tx_main_ffh_frequency :: "'d attribute_layer \<Rightarrow> 'd ad9081 \<Rightarrow> error + attr_value" where
  "get_tx_main_ffh_frequency L self = get_iio_attr L (ctrl self) ''voltage0_i'' ''main_ffh_frequency'' True"

text \<open>
  Lines 299 to 307. The comparison \<^verbatim>\<open>self.tx_main_ffh_index == 0\<close> reads the bank
  index through its getter; a read that raises ends the setter with that error.
\<close>

definition set_tx_main_ffh_frequency ::
  "'d attribute_layer \<Rightarrow> attr_value \<Rightarrow> 'd ad9081 \<Rightarrow> (error + unit) \<times> 'd ad9081"
where
  "set_tx_main_ffh_frequency L value self =
     (case get_tx_main_ffh_index L self of
        Inl e \<Rightarrow> (Inl e, self)
      | Inr idx \<Rightarrow>
          if idx = Num 0 then
            (Inl (Exception ''To set a FFH NCO bank frequency, tx_main_ffh_index must > 0''), self)
          else
            write_ctrl self
              (set_iio_attr L (ctrl self) ''voltage0_i'' ''main_ffh_frequency'' True value))"

definition get_tx_main_ffh_mode :: "'d attribute_layer \<Rightarrow> 'd ad9081 \<Rightarrow> error + attr_value" where
  "get_tx_main_ffh_mode L self = get_iio_attr L (ctrl self) ''voltage0_i'' ''main_ffh_mode'' True"

definition set_tx_main_ffh_mode ::
  "'d attribute_layer \<Rightarrow> attr_value \<Rightarrow> 'd ad9081 \<Rightarrow> (error + unit) \<times> 'd ad9081"
where
  "set_tx_main_ffh_mode L value self =
     write_ctrl self (set_iio_attr L (ctrl self) ''voltage0_i'' ''main_ffh_mode'' True value)"

definition get_loopback_mode :: "'d attribute_layer \<Rightarrow> 'd ad9081 \<Rightarrow> error + attr_value" where
  "get_loopback_mode L self = get_iio_dev_attr L (ctrl self) ''loopback_mode''"

definition set_loopback_mode ::
  "'d attribute_layer \<Rightarrow> attr_value \<Rightarrow> 'd ad9081 \<Rightarrow> (error + unit) \<times> 'd ad9081"
where
  "set_loopback_mode L value self =
     write_ctrl self (set_iio_dev_attr L (ctrl self) ''loopback_mode'' value)"

definition get_rx_sampling_frequency :: "'d attribute_layer \<Rightarrow> 'd ad9081 \<Rightarrow> error + attr_value" where
  "get_rx_sampling_frequency L self = get_iio_attr L (ctrl self) ''voltage0_i'' ''sampling_frequency'' False"

definition get_adc_frequency :: "'d attribute_layer \<Rightarrow> 'd ad9081 \<Rightarrow> error + attr_value" where
  "get_adc_frequency L self = get_iio_attr L (ctrl self) ''voltage0_i'' ''adc_frequency'' False"

definition get_tx_sampling_frequency :: "'d attribute_layer \<Rightarrow> 'd ad9081 \<Rightarrow> error + attr_value" where
  "get_tx_sampling_frequency L self = get_iio_attr L (ctrl self) ''voltage0_i'' ''sampling_frequency'' True"

definition get_dac_frequency :: "'d attribute_layer \<Rightarrow> 'd ad9081 \<Rightarrow> error + attr_value" where
  "get_dac_frequency L self = get_iio_attr L (ctrl self) ''voltage0_i'' ''dac_frequency'' True"

text \<open>
  Every property access of the class as one operation on the object: the outcome (a
  value or an error) and the object afterwards.
\<close>

datatype facade_op =
    Get_path_map
  | Get_rx_channel_nco_frequencies
  | Set_rx_channel_nco_frequencies "attr_value list"
  | Get_rx_channel_nco_phases
  | Set_rx_channel_nco_phases "attr_value list"
  | Get_rx_main_nco_frequencies
  | Set_rx_main_nco_frequencies "attr_value list"
  | Get_rx_main_nco_phases
  | Set_rx_main_nco_phases "attr_value list"
  | Get_tx_channel_nco_frequencies
  | Set_tx_channel_nco_frequencies "attr_value list"
  | Get_tx_channel_nco_phases
  | Set_tx_channel_nco_phases "attr_value list"
  | Get_tx_main_nco_frequencies
  | Set_tx_main_nco_frequencies "attr_value list"
  | Get_tx_main_nco_phases
  | Set_tx_main_nco_phases "attr_value list"
  | Get_rx_test_mode
  | Set_rx_test_mode attr_value
  | Get_rx_nyquist_zone
  | Set_rx_nyquist_zone attr_value
  | Get_tx_main_ffh_frequency
  | Set_tx_main_ffh_frequency attr_value
  | Get_tx_main_ffh_index
  | Set_tx_main_ffh_index attr_value
  | Get_tx_main_ffh_mode
  | Set_tx_main_ffh_mode attr_value
  | Get_loopback_mode
  | Set_loopback_mode attr_value
  | Get_rx_sampling_frequency
  | Get_adc_frequency
  | Get_tx_sampling_frequency
  | Get_dac_frequency

datatype facade_result =
  Paths path_dict
  | Values "attr_value list"
  | Value attr_value
  | Done

definition returned ::
  "('a \<Rightarrow> facade_result) \<Rightarrow> 'd ad9081 \<Rightarrow> error + 'a \<Rightarrow> (error + facade_result) \<times> 'd ad9081"
where
  "returned wrap self r = (map_sum id wrap r, self)"

definition written :: "(error + unit) \<times> 'd ad9081 \<Rightarrow> (error + facade_result) \<times> 'd ad9081" where
  "written r = (map_sum id (\<lambda>u. Done) (fst r), snd r)"

fun run_op ::
  "'d attribute_layer \<Rightarrow> facade_op \<Rightarrow> 'd ad9081 \<Rightarrow> (error + facade_result) \<times> 'd ad9081"
where
  "run_op L Get_path_map self = (Inr (Paths (get_path_map self)), self)"
| "run_op L Get_rx_channel_nco_frequencies self = returned Values self (get_rx_channel_nco_frequencies L self)"
| "run_op L (Set_rx_channel_nco_frequencies value) self = written (set_rx_channel_nco_frequencies L value self)"
| "run_op L Get_rx_channel_nco_phases self = returned Values self (get_rx_channel_nco_phases L self)"
| "run_op L (Set_rx_channel_nco_phases value) self = written (set_rx_channel_nco_phases L value self)"
| "run_op L Get_rx_main_nco_frequencies self = returned Values self (get_rx_main_nco_frequencies L self)"
| "run_op L (Set_rx_main_nco_frequencies value) self = written (set_rx_main_nco_frequencies L value self)"
| "run_op L Get_rx_main_nco_phases self = returned Values self (get_rx_main_nco_phases L self)"
| "run_op L (Set_rx_main_nco_phases value) self = written (set_rx_main_nco_phases L value self)"
| "run_op L Get_tx_channel_nco_frequencies self = returned Values self (get_tx_channel_nco_frequencies L self)"
| "run_op L (Set_tx_channel_nco_frequencies value) self = written (set_tx_channel_nco_frequencies L value self)"
| "run_op L Get_tx_channel_nco_phases self = returned Values self (get_tx_channel_nco_phases L self)"
| "run_op L (Set_tx_channel_nco_phases value) self = written (set_tx_channel_nco_phases L value self)"
| "run_op L Get_tx_main_nco_frequencies self = returned Values self (get_tx_main_nco_frequencies L self)"
| "run_op L (Set_tx_main_nco_frequencies value) self = written (set_tx_main_nco_frequencies L value self)"
| "run_op L Get_tx_main_nco_phases self = returned Values self (get_tx_main_nco_phases L self)"
| "run_op L (Set_tx_main_nco_phases value) self = written (set_tx_main_nco_phases L value self)"
| "run_op L Get_rx_test_mode self = returned Value self (get_rx_test_mode L self)"
| "run_op L (Set_rx_test_mode value) self = written (set_rx_test_mode L value self)"
| "run_op L Get_rx_nyquist_zone self = returned Value self (get_rx_nyquist_zone L self)"
| "run_op L (Set_rx_nyquist_zone value) self = written (set_rx_nyquist_zone L value self)"
| "run_op L Get_tx_main_ffh_frequency self = returned Value self (get_tx_main_ffh_frequency L self)"
| "run_op L (Set_tx_main_ffh_frequency value) self = written (set_tx_main_ffh_frequency L value self)"
| "run_op L Get_tx_main_ffh_index self = returned Value self (get_tx_main_ffh_index L self)"
| "run_op L (Set_tx_main_ffh_index value) self = written (set_tx_main_ffh_index L value self)"
| "run_op L Get_tx_main_ffh_mode self = returned Value self (get_tx_main_ffh_mode L self)"
| "run_op L (Set_tx_main_ffh_mode value) self = written (set_tx_main_ffh_mode L value self)"
| "run_op L Get_loopback_mode self = returned Value self (get_loopback_mode L self)"
| "run_op L (Set_loopback_mode value) self = written (set_loopback_mode L value self)"
| "run_op L Get_rx_sampling_frequency self = returned Value self (get_rx_sampling_frequency L self)"
| "run_op L Get_adc_frequency self = returned Value self (get_adc_frequency L self)"
| "run_op L Get_tx_sampling_frequency self = returned Value self (get_tx_sampling_frequency L self)"
| "run_op L Get_dac_frequency self = returned Value self (get_dac_frequency L self)"

section \<open>Vocabulary for the statements\<close>

text \<open>
  Lines 137 to 140 on a fine-stage dictionary: the identifiers of all its buckets, in
  order, restricted to those that contain \<^verbatim>\<open>_i\<close>.
\<close>

definition group_ids :: "fdc_dict \<Rightarrow> string list" where
  "group_ids fd = filter (contains ''_i'') (concat (map (\<lambda>(fdc, e). channels e) fd))"

text \<open>
  What the coarse stages of one converter add when the loop over them completes: the
  first filtered identifier of each group, and all filtered identifiers.
\<close>

definition coarse_names :: "cdc_dict \<Rightarrow> string list" where
  "coarse_names cd = concat (map (\<lambda>(cdc, fd). take 1 (group_ids fd)) cd)"

definition fine_names :: "cdc_dict \<Rightarrow> string list" where
  "fine_names cd = concat (map (\<lambda>(cdc, fd). group_ids fd) cd)"

text \<open>
  The two branches of lines 141 to 146: appending to the receive-side lists, or to the
  transmit-side lists.
\<close>

definition append_names :: "bool \<Rightarrow> string list \<Rightarrow> string list \<Rightarrow> 'd ad9081 \<Rightarrow> 'd ad9081" where
  "append_names rx coarse fine self =
     (if rx then
        self\<lparr>rx_coarse_ddc_channel_names := rx_coarse_ddc_channel_names self @ coarse,
              rx_fine_ddc_channel_names := rx_fine_ddc_channel_names self @ fine\<rparr>
      else
        self\<lparr>tx_coarse_duc_channel_names := tx_coarse_duc_channel_names self @ coarse,
              tx_fine_duc_channel_names := tx_fine_duc_channel_names self @ fine\<rparr>)"

text \<open>
  A path map is well formed when it is a dictionary at each of its three levels.
\<close>

definition wf_paths :: "path_dict \<Rightarrow> bool" where
  "wf_paths paths =
     (is_dict paths \<and>
      list_all (\<lambda>(conv, cd). is_dict cd \<and> list_all (\<lambda>(cdc, fd). is_dict fd) cd) paths)"

section \<open>An example attribute layer\<close>

text \<open>
  Modelled from the spec: the attribute-access helpers \<^verbatim>\<open>_get_iio_attr\<close>,
  \<^verbatim>\<open>_set_iio_attr\<close> and their string, vector and device variants, which the class
  inherits from a module that is not part of the source file. The device keeps one
  value per channel attribute (channel name, attribute name, output flag) and one per
  device attribute.
\<close>

record device =
  chan_attrs :: "((string \<times> string \<times> bool) \<times> attr_value) list"
  dev_attrs :: "(string \<times> attr_value) list"

text \<open>
  Modelled from the spec: reading a channel attribute returns the stored value; a
  missing attribute is an error of the external layer.
\<close>

definition store_get :: "device \<Rightarrow> string \<Rightarrow> string \<Rightarrow> bool \<Rightarrow> error + attr_value" where
  "store_get d c a out =
     (case map_of (chan_attrs d) (c, a, out) of
        None \<Rightarrow> Inl (ExternalError ''no such attribute'')
      | Some v \<Rightarrow> Inr v)"

text \<open>
  Modelled from the spec: writing a channel attribute replaces the stored value; a
  missing attribute is an error of the external layer and nothing is written.
\<close>

definition store_set ::
  "device \<Rightarrow> string \<Rightarrow> string \<Rightarrow> bool \<Rightarrow> attr_value \<Rightarrow> (error + unit) \<times> device"
where
  "store_set d c a out v =
     (case map_of (chan_attrs d) (c, a, out) of
        None \<Rightarrow> (Inl (ExternalError ''no such attribute''), d)
      | Some old \<Rightarrow> (Inr (), d\<lparr>chan_attrs := AList.update (c, a, out) v (chan_attrs d)\<rparr>))"

text \<open>
  Modelled from the spec: the vectorised read reads the attribute from each named
  channel, in the order of the name list.
\<close>

fun store_get_vec :: "device \<Rightarrow> string list \<Rightarrow> string \<Rightarrow> bool \<Rightarrow> error + attr_value list" where
  "store_get_vec d [] a out = Inr []"
| "store_get_vec d (c # cs) a out =
     (case store_get d c a out of
        Inl e \<Rightarrow> Inl e
      | Inr v \<Rightarrow> (case store_get_vec d cs a out of Inl e \<Rightarrow> Inl e | Inr vs \<Rightarrow> Inr (v # vs)))"

text \<open>
  Modelled from the spec: the vectorised write writes \<open>value[i]\<close> to the \<open>i\<close>-th name, in
  list order; a failure part way leaves the earlier writes in place. A value list
  that is too short fails at the first missing value.
\<close>

fun store_set_vec ::
  "device \<Rightarrow> string list \<Rightarrow> string \<Rightarrow> bool \<Rightarrow> attr_value list \<Rightarrow> (error + unit) \<times> device"
where
  "store_set_vec d [] a out vs = (Inr (), d)"
| "store_set_vec d (c # cs) a out [] = (Inl IndexError, d)"
| "store_set_vec d (c # cs) a out (v # vs) =
     (case store_set d c a out v of
        (Inl e, d') \<Rightarrow> (Inl e, d')
      | (Inr u, d') \<Rightarrow> store_set_vec d' cs a out vs)"

text \<open>Modelled from the spec: reading and writing a device-level attribute.\<close>

definition store_get_dev :: "device \<Rightarrow> string \<Rightarrow> error + attr_value" where
  "store_get_dev d a =
     (case map_of (dev_attrs d) a of
        None \<Rightarrow> Inl (ExternalError ''no such attribute'')
      | Some v \<Rightarrow> Inr v)"

definition store_set_dev :: "device \<Rightarrow> string \<Rightarrow> attr_value \<Rightarrow> (error + unit) \<times> device" where
  "store_set_dev d a v =
     (case map_of (dev_attrs d) a of
        None \<Rightarrow> (Inl (ExternalError ''no such attribute''), d)
      | Some old \<Rightarrow> (Inr (), d\<lparr>dev_attrs := AList.update a v (dev_attrs d)\<rparr>))"

text \<open>Modelled from the spec: the eight helpers together.\<close>

definition store_layer :: "device attribute_layer" where
  "store_layer =
     \<lparr>get_iio_attr = store_get, get_iio_attr_str = store_get, get_iio_attr_vec = store_get_vec,
      get_iio_dev_attr = store_get_dev, set_iio_attr = store_set, set_iio_attr_str = store_set,
      set_iio_attr_vec = store_set_vec, set_iio_dev_attr = store_set_dev\<rparr>"

text \<open>
  Example objects: every list empty, and a device with the two frequency-hopping
  attributes of \<^verbatim>\<open>voltage0_i\<close>.
\<close>

definition blank :: "'d \<Rightarrow> 'd ad9081" where
  "blank d =
     \<lparr>path_map = [], rx_channel_names = [], tx_channel_names = [],
      tx_control_channel_names = [], rx_coarse_ddc_channel_names = [],
      tx_coarse_duc_channel_names = [], rx_fine_ddc_channel_names = [],
      tx_fine_duc_channel_names = [], dds_channel_names = [], rx_buffer_size = 0, ctrl = d\<rparr>"

definition bank_device :: "int \<Rightarrow> device" where
  "bank_device n =
     \<lparr>chan_attrs = [((''voltage0_i'', ''main_ffh_index'', True), Num n),
                    ((''voltage0_i'', ''main_ffh_frequency'', True), Num 1000)],
      dev_attrs = [(''loopback_mode'', Num 0)]\<rparr>"

section \<open>Properties of the string and sorting primitives\<close>

lemma contains_skip: "c \<notin> set a \<Longrightarrow> contains (c # r) (a @ b) = contains (c # r) b"
  by (induction a) auto

lemma py_find_skip: "c \<notin> set a \<Longrightarrow> py_find (a @ c # b) [c] = int (length a)"
  by (induction a) (auto simp: Let_def)

lemma digit_not_underscore: "is_digit c \<Longrightarrow> c \<noteq> CHR ''_''"
  by (auto simp: is_digit_def)

lemma digit_not_space: "is_digit c \<Longrightarrow> \<not> is_space c"
  by (auto simp: is_digit_def is_space_def Let_def)

lemma digit_not_sign: "is_digit c \<Longrightarrow> c \<noteq> CHR ''-'' \<and> c \<noteq> CHR ''+''"
  by (auto simp: is_digit_def)

lemma digits_no_underscore: "list_all is_digit d \<Longrightarrow> CHR ''_'' \<notin> set d"
  by (induction d) (auto dest: digit_not_underscore)

lemma parse_digits_all: "list_all is_digit cs \<Longrightarrow>
  parse_digits acc cs = Some (foldl (\<lambda>a c. 10 * a + digit_val c) acc cs)"
  by (induction acc cs rule: parse_digits.induct) auto

lemma py_strip_digits: "d \<noteq> [] \<Longrightarrow> list_all is_digit d \<Longrightarrow> py_strip d = d"
proof -
  assume ne: "d \<noteq> []" and dg: "list_all is_digit d"
  then have h: "\<not> is_space (hd d)" and l: "\<not> is_space (last d)"
    by (auto simp: list_all_iff dest!: digit_not_space)
  from ne h have 1: "dropWhile is_space d = d" by (cases d) auto
  from ne l have 2: "dropWhile is_space (rev d) = rev d"
    by (cases "rev d") (auto simp: last_rev[symmetric] simp del: last_rev)
  show ?thesis by (simp add: py_strip_def 1 2)
qed

lemma py_int_digits: "d \<noteq> [] \<Longrightarrow> list_all is_digit d \<Longrightarrow> py_int d = Inr (decimal d)"
  by (cases d) (auto simp: py_int_def py_strip_digits decimal_def parse_digits_all dest: digit_not_sign)

lemma ignoreadc_name:
  "list_all is_digit d \<Longrightarrow> ignoreadc (''voltage'' @ d @ CHR ''_'' # r) = py_int d"
proof -
  assume dg: "list_all is_digit d"
  have "CHR ''_'' \<notin> set (''voltage'' @ d)" using digits_no_underscore[OF dg] by simp
  from py_find_skip[OF this, of r] have "py_find (''voltage'' @ d @ CHR ''_'' # r) ''_'' = int (7 + length d)"
    by simp
  then show ?thesis by (simp add: ignoreadc_def py_slice_def py_index_bound_def)
qed

lemma ignorealt_name: "ignorealt (''altvoltage'' @ d) = py_int d"
  by (simp add: ignorealt_def)

lemma keys_of_total: "(\<And>x. x \<in> set xs \<Longrightarrow> f x = Inr (g x)) \<Longrightarrow> keys_of f xs = Inr (map g xs)"
  by (induction xs) auto

lemma insort_decorated:
  "map snd (insort_key fst (g x, x) (zip (map g ys) ys)) = insort_key g x ys \<and>
   insort_key fst (g x, x) (zip (map g ys) ys) = zip (map g (insort_key g x ys)) (insort_key g x ys)"
  by (induction ys) auto

lemma sort_decorated:
  "sort_key fst (zip (map g xs) xs) = zip (map g (sort_key g xs)) (sort_key g xs)"
  by (induction xs) (auto simp: insort_decorated)

lemma py_sorted_total:
  "(\<And>x. x \<in> set xs \<Longrightarrow> f x = Inr (g x)) \<Longrightarrow> py_sorted xs f = Inr (sort_key g xs)"
  by (simp add: py_sorted_def keys_of_total sort_decorated)

lemma keys_of_error: "keys_of f xs = Inl e \<Longrightarrow> \<exists>x \<in> set xs. f x = Inl e"
  by (induction xs) (auto split: sum.splits)

lemma loop_noq: "sortconv_loop True tI tQ is out = Inr (out @ map (nth tI) is)"
  by (induction "is" arbitrary: out) auto

lemma loop_pairs_ok: "(\<And>i. i \<in> set is \<Longrightarrow> i < length tQ) \<Longrightarrow>
  sortconv_loop False tI tQ is out = Inr (out @ concat (map (\<lambda>i. [tI ! i, tQ ! i]) is))"
  by (induction "is" arbitrary: out) auto

lemma loop_pairs_fail: "\<exists>i \<in> set is. \<not> i < length tQ \<Longrightarrow>
  sortconv_loop False tI tQ is out = Inl IndexError"
  by (induction "is" arbitrary: out) auto

lemma concat_zip_nth: "length tI \<le> length tQ \<Longrightarrow>
  concat (map (\<lambda>i. [tI ! i, tQ ! i]) [0..<length tI]) = concat (map (\<lambda>(a, b). [a, b]) (zip tI tQ))"
proof -
  assume le: "length tI \<le> length tQ"
  have "map (\<lambda>i. [tI ! i, tQ ! i]) [0..<length tI] = map (\<lambda>(a, b). [a, b]) (zip tI tQ)"
    using le by (intro nth_equalityI) auto
  then show ?thesis by simp
qed

lemma loop_range:
  "sortconv_loop False tI tQ [0..<length tI] [] =
     (if length tQ < length tI then Inl IndexError
      else Inr (concat (map (\<lambda>(a, b). [a, b]) (zip tI tQ))))"
proof (cases "length tQ < length tI")
  case True
  then have "\<exists>i \<in> set [0..<length tI]. \<not> i < length tQ" by (intro bexI[of _ "length tQ"]) auto
  from loop_pairs_fail[OF this] True show ?thesis by simp
next
  case False
  then have "\<And>i. i \<in> set [0..<length tI] \<Longrightarrow> i < length tQ" by auto
  from loop_pairs_ok[OF this, of "[0..<length tI]" tI "[]"] False show ?thesis
    by (simp add: concat_zip_nth)
qed

lemma filter_eq_single: "distinct L \<Longrightarrow> k \<in> set L \<Longrightarrow> filter (\<lambda>x. x = k) L = [k]"
proof (induction L)
  case Nil
  then show ?case by simp
next
  case (Cons a L)
  show ?case
  proof (cases "a = k")
    case True
    with Cons.prems have "k \<notin> set L" by simp
    then have "filter (\<lambda>x. x = k) L = []" by (auto simp: filter_empty_conv)
    with True show ?thesis by simp
  next
    case False
    with Cons show ?thesis by simp
  qed
qed

lemma sort_key_unique:
  assumes "mset xs = mset ys" "distinct (map f ys)"
  shows "sort_key f xs = sort_key f ys"
proof -
  from assms(2) have inj: "inj_on f (set ys)" and dy: "distinct ys"
    by (auto simp: distinct_map)
  from assms(1) have sx: "set xs = set ys" by (rule mset_eq_setD)
  from dy have dx: "distinct xs" using mset_eq_imp_distinct_iff[OF assms(1)] by simp
  have single: "filter (\<lambda>x. f k = f x) L = [k]"
    if "distinct L" "set L = set ys" "k \<in> set ys" for L k
  proof -
    have "filter (\<lambda>x. f k = f x) L = filter (\<lambda>x. x = k) L"
      using inj that by (intro filter_cong) (auto dest: inj_onD)
    also have "\<dots> = [k]" using that by (intro filter_eq_single) simp_all
    finally show ?thesis .
  qed
  show ?thesis
  proof (rule properties_for_sort_key)
    show "mset (sort_key f ys) = mset xs" using assms(1) by simp
    show "sorted (map f (sort_key f ys))" by simp
    fix k assume "k \<in> set (sort_key f ys)"
    then have k: "k \<in> set ys" by simp
    show "filter (\<lambda>x. f k = f x) (sort_key f ys) = filter (\<lambda>x. f k = f x) xs"
      using single[of "sort_key f ys" k] single[of xs k] k dx dy sx by simp
  qed
qed

lemma sort_key_cong_set: "(\<And>x. x \<in> set xs \<Longrightarrow> f x = g x) \<Longrightarrow> sort_key f xs = sort_key g xs"
proof (induction xs)
  case Nil
  then show ?case by simp
next
  case (Cons a xs)
  have ins: "insort_key f a ys = insort_key g a ys" if "\<And>x. x \<in> set (a # ys) \<Longrightarrow> f x = g x" for ys
    using that by (induction ys) auto
  from Cons show ?case using ins[of "sort_key g xs"] by simp
qed

lemma sort_key_map: "sort_key f (map h xs) = map h (sort_key (f \<circ> h) xs)"
proof (induction xs)
  case Nil
  then show ?case by simp
next
  case (Cons a xs)
  have ins: "insort_key f (h a) (map h ys) = map h (insort_key (f \<circ> h) a ys)" for ys
    by (induction ys) auto
  from Cons show ?case using ins[of "sort_key (f \<circ> h) xs"] by (simp add: comp_def)
qed

section \<open>Properties of \<^verbatim>\<open>_sortconv\<close>\<close>

lemma has_i_iname: "list_all is_digit d \<Longrightarrow> contains ''_i'' (''voltage'' @ d @ ''_i'')"
  using contains_skip[of "CHR ''_''" "''voltage'' @ d" "''i''" "''_i''"] digits_no_underscore[of d]
  by simp

lemma has_q_qname: "list_all is_digit d \<Longrightarrow> contains ''_q'' (''voltage'' @ d @ ''_q'')"
  using contains_skip[of "CHR ''_''" "''voltage'' @ d" "''q''" "''_q''"] digits_no_underscore[of d]
  by simp

lemma no_i_qname: "list_all is_digit d \<Longrightarrow> \<not> contains ''_i'' (''voltage'' @ d @ ''_q'')"
  using contains_skip[of "CHR ''_''" "''voltage'' @ d" "''i''" "''_q''"] digits_no_underscore[of d]
  by simp

lemma no_q_iname: "list_all is_digit d \<Longrightarrow> \<not> contains ''_q'' (''voltage'' @ d @ ''_i'')"
  using contains_skip[of "CHR ''_''" "''voltage'' @ d" "''q''" "''_i''"] digits_no_underscore[of d]
  by simp

lemma key_iname: "d \<noteq> [] \<Longrightarrow> list_all is_digit d \<Longrightarrow>
  ignoreadc (''voltage'' @ d @ ''_i'') = Inr (decimal d)"
  using ignoreadc_name[of d "''i''"] by (simp add: py_int_digits)

lemma key_qname: "d \<noteq> [] \<Longrightarrow> list_all is_digit d \<Longrightarrow>
  ignoreadc (''voltage'' @ d @ ''_q'') = Inr (decimal d)"
  using ignoreadc_name[of d "''q''"] by (simp add: py_int_digits)

text \<open>Sorting one partition whose names are the image of an index list with distinct keys.\<close>

lemma py_sorted_partition:
  assumes part: "mset zs = mset (map nm ps)"
    and key: "\<And>p. p \<in> set ps \<Longrightarrow> ignoreadc (nm p) = Inr (k p)"
    and dist: "distinct (map k ps)"
  shows "py_sorted zs ignoreadc = Inr (map nm (sort_key k ps))"
proof -
  define g where "g = (\<lambda>w. case ignoreadc w of Inr n \<Rightarrow> n | Inl e \<Rightarrow> 0)"
  have gk: "g (nm p) = k p" if "p \<in> set ps" for p using key[OF that] by (simp add: g_def)
  have set_zs: "set zs = nm ` set ps" using mset_eq_setD[OF part] by simp
  have tot: "ignoreadc w = Inr (g w)" if "w \<in> set zs" for w
    using that set_zs key by (auto simp: g_def)
  have m: "map (g \<circ> nm) ps = map k ps" using gk by simp
  have d2: "distinct (map g (map nm ps))" using dist by (simp add: m)
  have "py_sorted zs ignoreadc = Inr (sort_key g zs)" using tot by (rule py_sorted_total)
  also have "sort_key g zs = sort_key g (map nm ps)" using part d2 by (rule sort_key_unique)
  also have "\<dots> = map nm (sort_key (g \<circ> nm) ps)" by (rule sort_key_map)
  also have "sort_key (g \<circ> nm) ps = sort_key k ps" using gk by (intro sort_key_cong_set) simp
  finally show ?thesis .
qed

lemma sortconv_iq_core:
  fixes ps :: "(string \<times> string) list"
  assumes dg: "list_all (\<lambda>(di, dq). di \<noteq> [] \<and> list_all is_digit di \<and> dq \<noteq> [] \<and>
                 list_all is_digit dq \<and> decimal di = decimal dq) ps"
    and dist: "distinct (map (\<lambda>(di, dq). decimal di) ps)"
    and names: "mset xs = mset (map (\<lambda>(di, dq). ''voltage'' @ di @ ''_i'') ps) +
                          mset (map (\<lambda>(di, dq). ''voltage'' @ dq @ ''_q'') ps)"
  shows "sortconv xs False False =
           Inr (concat (map (\<lambda>(di, dq). [''voltage'' @ di @ ''_i'', ''voltage'' @ dq @ ''_q''])
                  (sort_key (\<lambda>(di, dq). decimal di) ps)))"
proof -
  define I where "I = (\<lambda>(di :: string, dq :: string). ''voltage'' @ di @ ''_i'')"
  define Q where "Q = (\<lambda>(di :: string, dq :: string). ''voltage'' @ dq @ ''_q'')"
  define k where "k = (\<lambda>(di :: string, dq :: string). decimal di)"
  have ok: "di \<noteq> [] \<and> list_all is_digit di \<and> dq \<noteq> [] \<and> list_all is_digit dq \<and>
            decimal di = decimal dq" if "(di, dq) \<in> set ps" for di dq
    using dg that by (auto simp: list_all_iff)
  have cI: "contains ''_i'' (I p) \<and> \<not> contains ''_q'' (I p)" if "p \<in> set ps" for p
  proof -
    obtain di dq where p: "p = (di, dq)" by (cases p)
    with that ok[of di dq] has_i_iname[of di] no_q_iname[of di] show ?thesis
      by (simp add: I_def)
  qed
  have cQ: "contains ''_q'' (Q p) \<and> \<not> contains ''_i'' (Q p)" if "p \<in> set ps" for p
  proof -
    obtain di dq where p: "p = (di, dq)" by (cases p)
    with that ok[of di dq] has_q_qname[of dq] no_i_qname[of dq] show ?thesis
      by (simp add: Q_def)
  qed
  have fI: "filter (contains ''_i'') (map I ps) = map I ps"
    using cI by (simp add: filter_id_conv)
  have fIQ: "filter (contains ''_i'') (map Q ps) = []"
    using cQ by (simp add: filter_empty_conv)
  have fQ: "filter (contains ''_q'') (map Q ps) = map Q ps"
    using cQ by (simp add: filter_id_conv)
  have fQI: "filter (contains ''_q'') (map I ps) = []"
    using cI by (simp add: filter_empty_conv)
  from names have nm: "mset xs = mset (map I ps) + mset (map Q ps)" by (simp add: I_def Q_def)
  have "mset (filter (contains ''_i'') xs) = filter_mset (contains ''_i'') (mset xs)" by simp
  also have "\<dots> = mset (filter (contains ''_i'') (map I ps)) + mset (filter (contains ''_i'') (map Q ps))"
    unfolding nm by simp
  finally have pI: "mset (filter (contains ''_i'') xs) = mset (map I ps)" by (simp add: fI fIQ)
  have "mset (filter (contains ''_q'') xs) = filter_mset (contains ''_q'') (mset xs)" by simp
  also have "\<dots> = mset (filter (contains ''_q'') (map I ps)) + mset (filter (contains ''_q'') (map Q ps))"
    unfolding nm by simp
  finally have pQ: "mset (filter (contains ''_q'') xs) = mset (map Q ps)" by (simp add: fQ fQI)
  have kI: "ignoreadc (I p) = Inr (k p)" if "p \<in> set ps" for p
  proof -
    obtain di dq where p: "p = (di, dq)" by (cases p)
    with that ok[of di dq] key_iname[of di] show ?thesis by (simp add: I_def k_def)
  qed
  have kQ: "ignoreadc (Q p) = Inr (k p)" if "p \<in> set ps" for p
  proof -
    obtain di dq where p: "p = (di, dq)" by (cases p)
    with that ok[of di dq] key_qname[of dq] show ?thesis by (simp add: Q_def k_def)
  qed
  from dist have dk: "distinct (map k ps)" by (simp add: k_def)
  have sI: "py_sorted (filter (contains ''_i'') xs) ignoreadc = Inr (map I (sort_key k ps))"
    using pI kI dk by (rule py_sorted_partition)
  have sQ: "py_sorted (filter (contains ''_q'') xs) ignoreadc = Inr (map Q (sort_key k ps))"
    using pQ kQ dk by (rule py_sorted_partition)
  have zipIQ: "concat (map (\<lambda>(a, b). [a, b]) (zip (map I ys) (map Q ys))) = concat (map (\<lambda>p. [I p, Q p]) ys)"
    for ys by (induction ys) auto
  have "sortconv xs False False = Inr (concat (map (\<lambda>p. [I p, Q p]) (sort_key k ps)))"
    using loop_range[where tI = "map I (sort_key k ps)" and tQ = "map Q (sort_key k ps)"]
    by (simp add: sortconv_def sI sQ zipIQ del: sortconv_loop.simps)
  also have "(\<lambda>p. [I p, Q p]) = (\<lambda>(di, dq). [''voltage'' @ di @ ''_i'', ''voltage'' @ dq @ ''_q''])"
    by (auto simp: I_def Q_def)
  finally show ?thesis by (simp add: k_def)
qed

text \<open>
  Claim C1. Let the input consist, for each pair \<open>(di, dq)\<close> of a list \<open>ps\<close>, of the names
  \<^verbatim>\<open>voltage<di>_i\<close> and \<^verbatim>\<open>voltage<dq>_q\<close>, where \<open>di\<close> and \<open>dq\<close> are non-empty digit
  strings denoting the same index and different pairs denote different indices: every
  index occurs once with an \<^verbatim>\<open>_i\<close> name and once with a \<^verbatim>\<open>_q\<close> name. Then
  \<open>sortconv\<close> with the default flags returns, for the indices in ascending order, the
  \<^verbatim>\<open>_i\<close> name followed by the \<^verbatim>\<open>_q\<close> name, and every permutation of the input gives
  the same output.
\<close>

theorem sortconv_iq_interleave:
  fixes ps :: "(string \<times> string) list"
  assumes dg: "list_all (\<lambda>(di, dq). di \<noteq> [] \<and> list_all is_digit di \<and> dq \<noteq> [] \<and>
                 list_all is_digit dq \<and> decimal di = decimal dq) ps"
    and dist: "distinct (map (\<lambda>(di, dq). decimal di) ps)"
    and names: "mset xs = mset (map (\<lambda>(di, dq). ''voltage'' @ di @ ''_i'') ps) +
                          mset (map (\<lambda>(di, dq). ''voltage'' @ dq @ ''_q'') ps)"
  shows "sortconv xs False False =
           Inr (concat (map (\<lambda>(di, dq). [''voltage'' @ di @ ''_i'', ''voltage'' @ dq @ ''_q''])
                  (sort_key (\<lambda>(di, dq). decimal di) ps))) \<and>
         (\<forall>ys. mset ys = mset xs \<longrightarrow> sortconv ys False False = sortconv xs False False)"
proof (intro conjI allI impI)
  show "sortconv xs False False =
           Inr (concat (map (\<lambda>(di, dq). [''voltage'' @ di @ ''_i'', ''voltage'' @ dq @ ''_q''])
                  (sort_key (\<lambda>(di, dq). decimal di) ps)))"
    using dg dist names by (rule sortconv_iq_core)
next
  fix ys assume "mset ys = mset xs"
  with names have "mset ys = mset (map (\<lambda>(di, dq). ''voltage'' @ di @ ''_i'') ps) +
                          mset (map (\<lambda>(di, dq). ''voltage'' @ dq @ ''_q'') ps)" by simp
  from sortconv_iq_core[OF dg dist this] sortconv_iq_core[OF dg dist names]
  show "sortconv ys False False = sortconv xs False False" by simp
qed

theorem sortconv_iq_interleave_witness:
  "sortconv [''voltage1_q'', ''voltage0_i'', ''voltage1_i'', ''voltage0_q''] False False =
     Inr [''voltage0_i'', ''voltage0_q'', ''voltage1_i'', ''voltage1_q''] \<and>
   sortconv [''voltage0_q'', ''voltage1_q'', ''voltage1_i'', ''voltage0_i''] False False =
     sortconv [''voltage1_q'', ''voltage0_i'', ''voltage1_i'', ''voltage0_q''] False False"
proof -
  let ?ps = "[(''1'', ''1''), (''0'', ''0'')]"
  let ?xs = "[''voltage1_q'', ''voltage0_i'', ''voltage1_i'', ''voltage0_q'']"
  let ?ys = "[''voltage0_q'', ''voltage1_q'', ''voltage1_i'', ''voltage0_i'']"
  have dg: "list_all (\<lambda>(di, dq). di \<noteq> [] \<and> list_all is_digit di \<and> dq \<noteq> [] \<and>
                 list_all is_digit dq \<and> decimal di = decimal dq) ?ps"
    by (simp add: is_digit_def)
  have dist: "distinct (map (\<lambda>(di, dq). decimal di) ?ps)"
    by (simp add: decimal_def digit_val_def)
  have names: "mset ?xs = mset (map (\<lambda>(di, dq). ''voltage'' @ di @ ''_i'') ?ps) +
                          mset (map (\<lambda>(di, dq). ''voltage'' @ dq @ ''_q'') ?ps)"
    by simp
  have perm: "mset ?ys = mset ?xs" by simp
  from sortconv_iq_interleave[OF dg dist names] perm show ?thesis
    by (simp add: decimal_def digit_val_def)
qed

text \<open>
  Claim C8. On names \<^verbatim>\<open>altvoltage<digits>\<close> (the digits non-empty), \<open>sortconv\<close> with
  \<open>dds\<close> set returns the same names sorted ascending by the number after the prefix:
  each name once, nothing paired, whatever \<open>noq\<close> is.
\<close>

theorem sortconv_dds_sorted:
  assumes dg: "list_all (\<lambda>d. d \<noteq> [] \<and> list_all is_digit d) ds"
  shows "sortconv (map (\<lambda>d. ''altvoltage'' @ d) ds) noq True =
           Inr (map (\<lambda>d. ''altvoltage'' @ d) (sort_key decimal ds))"
proof -
  define nm where "nm = (\<lambda>d :: string. ''altvoltage'' @ d)"
  have key: "ignorealt w = Inr ((decimal \<circ> drop 10) w)" if "w \<in> set (map nm ds)" for w
    using that dg by (auto simp: nm_def list_all_iff ignorealt_def py_int_digits)
  have sI: "py_sorted (map nm ds) ignorealt = Inr (map nm (sort_key decimal ds))"
    using py_sorted_total[of "map nm ds" ignorealt "decimal \<circ> drop 10", OF key]
    by (simp add: sort_key_map comp_def nm_def)
  have keyQ: "ignorealt w = Inr ((decimal \<circ> drop 10) w)"
    if "w \<in> set (filter (contains ''_q'') (map nm ds))" for w
    using that key by simp
  have sQ: "py_sorted (filter (contains ''_q'') (map nm ds)) ignorealt =
              Inr (sort_key (decimal \<circ> drop 10) (filter (contains ''_q'') (map nm ds)))"
    using keyQ by (rule py_sorted_total)
  have "sortconv (map nm ds) noq True = Inr (map nm (sort_key decimal ds))"
    using map_nth[of "map nm (sort_key decimal ds)"]
    by (simp add: sortconv_def sI sQ loop_noq del: sortconv_loop.simps)
  then show ?thesis by (simp add: nm_def)
qed

theorem sortconv_dds_sorted_witness:
  "sortconv [''altvoltage3'', ''altvoltage0'', ''altvoltage1''] False True =
     Inr [''altvoltage0'', ''altvoltage1'', ''altvoltage3'']"
proof -
  have dg: "list_all (\<lambda>d. d \<noteq> [] \<and> list_all is_digit d) [''3'', ''0'', ''1'']"
    by (simp add: is_digit_def)
  from sortconv_dds_sorted[OF dg, of False] show ?thesis
    by (simp add: decimal_def digit_val_def)
qed




section \<open>Properties of the path map\<close>

lemma in_keys_iff: "k \<in> fst ` set al \<longleftrightarrow> map_of al k \<noteq> None"
  by (simp add: map_of_eq_None_iff)

lemma fdc_entry_update: "(e :: fdc_entry)\<lparr>channels := v\<rparr> = \<lparr>channels = v\<rparr>"
  by (cases e) simp

lemma map_to_dict_eq:
  assumes "label_triple ch = Inr (f, c, a)"
  shows "map_to_dict paths ch =
           Inr (AList.update a
                 (AList.update c
                   (AList.update f
                      \<lparr>channels = (case leaf_at paths a c f of None \<Rightarrow> [] | Some l \<Rightarrow> l) @ [ch_id ch]\<rparr>
                      (case map_of (case map_of paths a of None \<Rightarrow> [] | Some cd \<Rightarrow> cd) c of
                         None \<Rightarrow> [] | Some fd \<Rightarrow> fd))
                   (case map_of paths a of None \<Rightarrow> [] | Some cd \<Rightarrow> cd))
                 paths)"
  using assms
  by (simp add: map_to_dict_def leaf_at_def in_keys_iff update_conv' Let_def fdc_entry_update
           split: option.splits)

lemma map_to_dict_leaf:
  assumes "label_triple ch = Inr (f, c, a)"
  shows "\<exists>m. map_to_dict paths ch = Inr m \<and>
           (\<forall>a' c' f'. leaf_at m a' c' f' =
              (if (a', c', f') = (a, c, f)
               then Some ((case leaf_at paths a c f of None \<Rightarrow> [] | Some l \<Rightarrow> l) @ [ch_id ch])
               else leaf_at paths a' c' f'))"
  unfolding map_to_dict_eq[OF assms]
  by (auto simp: leaf_at_def update_conv' split: option.splits)

lemma label_triple_unlabelled:
  "''label'' \<notin> set (map fst (attrs ch)) \<Longrightarrow> label_triple ch = Inl KeyError"
proof -
  assume "''label'' \<notin> set (map fst (attrs ch))"
  then have "''label'' \<notin> fst ` set (attrs ch)" unfolding set_map .
  then have "map_of (attrs ch) ''label'' = None" by (rule iffD2[OF map_of_eq_None_iff])
  then show ?thesis by (simp only: label_triple_def option.case)
qed

lemma label_triple_Inr_labelled:
  "label_triple ch = Inr t \<Longrightarrow> ''label'' \<in> set (map fst (attrs ch))"
  using label_triple_unlabelled[of ch] by (cases "''label'' \<in> set (map fst (attrs ch))") simp_all

lemma build_paths_leaves:
  assumes "list_all (\<lambda>ch. ''label'' \<in> set (map fst (attrs ch)) \<longrightarrow> \<not> isl (label_triple ch)) chs"
  shows "\<exists>m. build_paths paths chs = Inr m \<and>
           (\<forall>a c f. leaf_at m a c f =
              (let ids = map ch_id (filter (\<lambda>ch. label_triple ch = Inr (f, c, a)) chs)
               in if ids = [] then leaf_at paths a c f
                  else Some ((case leaf_at paths a c f of None \<Rightarrow> [] | Some l \<Rightarrow> l) @ ids)))"
  using assms
proof (induction chs arbitrary: paths)
  case Nil
  then show ?case by simp
next
  case (Cons ch chs)
  from Cons.prems have rest: "list_all (\<lambda>ch. ''label'' \<in> set (map fst (attrs ch)) \<longrightarrow> \<not> isl (label_triple ch)) chs"
    by simp
  show ?case
  proof (cases "''label'' \<in> set (map fst (attrs ch))")
    case False
    then have nt: "\<And>t. label_triple ch \<noteq> Inr t" using label_triple_Inr_labelled by blast
    from False have bp: "build_paths paths (ch # chs) = build_paths paths chs"
      by (simp only: build_paths.simps if_False)
    have flt: "filter (\<lambda>ch. label_triple ch = Inr (f, c, a)) (ch # chs) =
               filter (\<lambda>ch. label_triple ch = Inr (f, c, a)) chs" for f c a
      using nt by simp
    show ?thesis unfolding bp flt by (rule Cons.IH[OF rest])
  next
    case True
    with Cons.prems obtain f c a where t: "label_triple ch = Inr (f, c, a)"
      by (cases "label_triple ch") auto
    from map_to_dict_leaf[OF t, of paths] obtain m1 where
      m1: "map_to_dict paths ch = Inr m1" and
      l1: "\<And>a' c' f'. leaf_at m1 a' c' f' =
              (if (a', c', f') = (a, c, f)
               then Some ((case leaf_at paths a c f of None \<Rightarrow> [] | Some l \<Rightarrow> l) @ [ch_id ch])
               else leaf_at paths a' c' f')"
      by blast
    from Cons.IH[OF rest, of m1] obtain m where
      m: "build_paths m1 chs = Inr m" and
      l: "\<And>a c f. leaf_at m a c f =
              (let ids = map ch_id (filter (\<lambda>ch. label_triple ch = Inr (f, c, a)) chs)
               in if ids = [] then leaf_at m1 a c f
                  else Some ((case leaf_at m1 a c f of None \<Rightarrow> [] | Some l \<Rightarrow> l) @ ids))"
      by blast
    have "build_paths paths (ch # chs) = Inr m" using True m1 m by simp
    moreover have "leaf_at m a' c' f' =
              (let ids = map ch_id (filter (\<lambda>ch. label_triple ch = Inr (f', c', a')) (ch # chs))
               in if ids = [] then leaf_at paths a' c' f'
                  else Some ((case leaf_at paths a' c' f' of None \<Rightarrow> [] | Some l \<Rightarrow> l) @ ids))"
      for a' c' f'
      unfolding l[of a' c' f'] l1[of a' c' f'] using t by (auto simp: Let_def)
    ultimately show ?thesis by blast
  qed
qed

lemma build_paths_skips_unlabelled:
  "build_paths paths chs =
     build_paths paths (filter (\<lambda>ch. ''label'' \<in> set (map fst (attrs ch))) chs)"
proof (induction chs arbitrary: paths)
  case Nil
  show ?case by simp
next
  case (Cons ch chs)
  show ?case
  proof (cases "''label'' \<in> set (map fst (attrs ch))")
    case False
    then have "build_paths paths (ch # chs) = build_paths paths chs"
      by (simp only: build_paths.simps if_False)
    moreover from False have "filter (\<lambda>ch. ''label'' \<in> set (map fst (attrs ch))) (ch # chs) =
        filter (\<lambda>ch. ''label'' \<in> set (map fst (attrs ch))) chs"
      by (simp only: filter.simps if_False)
    ultimately show ?thesis using Cons[of paths] by (simp only:)
  next
    case True
    show ?thesis
    proof (cases "map_to_dict paths ch")
      case (Inl e)
      with True show ?thesis by simp
    next
      case (Inr m1)
      with True Cons[of m1] show ?thesis by simp
    qed
  qed
qed

text \<open>The build keeps a path map well formed, so the map the constructor stores is.\<close>

lemma is_dict_update: "is_dict d \<Longrightarrow> is_dict (AList.update k v d)"
  by (simp add: is_dict_def distinct_update)

lemma list_all_update:
  "list_all P d \<Longrightarrow> P (k, v) \<Longrightarrow> list_all P (AList.update k v d)"
  by (induction d) auto

lemma map_of_list_all: "list_all P d \<Longrightarrow> map_of d k = Some v \<Longrightarrow> P (k, v)"
  by (auto simp: list_all_iff dest: map_of_SomeD)

lemma map_to_dict_wf:
  assumes "wf_paths paths" "map_to_dict paths ch = Inr m"
  shows "wf_paths m"
proof -
  from assms(2) obtain f c a where t: "label_triple ch = Inr (f, c, a)"
    by (cases "label_triple ch") (auto simp: map_to_dict_def)
  define cd where "cd = (case map_of paths a of None \<Rightarrow> [] | Some cd \<Rightarrow> cd)"
  define fd where "fd = (case map_of cd c of None \<Rightarrow> [] | Some fd \<Rightarrow> fd)"
  from assms(1) have dp: "is_dict paths" and
    ap: "list_all (\<lambda>(conv, cd). is_dict cd \<and> list_all (\<lambda>(cdc, fd). is_dict fd) cd) paths"
    by (simp_all add: wf_paths_def)
  have wcd: "is_dict cd \<and> list_all (\<lambda>(cdc, fd). is_dict fd) cd"
    using map_of_list_all[OF ap, of a] by (auto simp: cd_def is_dict_def split: option.splits)
  then have wfd: "is_dict fd"
    using map_of_list_all[of "\<lambda>(cdc, fd). is_dict fd" cd c] by (auto simp: fd_def is_dict_def split: option.splits)
  from map_to_dict_eq[OF t, of paths] assms(2)
  have m: "m = AList.update a (AList.update c (AList.update f
              \<lparr>channels = (case leaf_at paths a c f of None \<Rightarrow> [] | Some l \<Rightarrow> l) @ [ch_id ch]\<rparr> fd) cd) paths"
    by (simp add: cd_def fd_def)
  show ?thesis unfolding m wf_paths_def
    using dp ap wcd wfd by (auto intro!: is_dict_update list_all_update)
qed

lemma build_paths_wf: "wf_paths paths \<Longrightarrow> build_paths paths chs = Inr m \<Longrightarrow> wf_paths m"
proof (induction chs arbitrary: paths)
  case Nil
  then show ?case by simp
next
  case (Cons ch chs)
  show ?case
  proof (cases "''label'' \<in> set (map fst (attrs ch))")
    case False
    with Cons show ?thesis by simp
  next
    case True
    show ?thesis
    proof (cases "map_to_dict paths ch")
      case (Inl e)
      with True Cons.prems show ?thesis by simp
    next
      case (Inr m1)
      with True Cons.prems Cons.IH[of m1] map_to_dict_wf[OF Cons.prems(1) Inr] show ?thesis by simp
    qed
  qed
qed

text \<open>
  Claim C2. For channels that all carry a label of three tokens \<^verbatim>\<open>fine->coarse->converter\<close>,
  building the path map from any map \<open>paths\<close> succeeds, and the leaf under
  \<open>[converter][coarse][fine]\<close> of the result is the old leaf (none, if the keys were not
  there) followed by the identifiers of the channels with that label, in the order of
  the channel list; a triple no channel is labelled with is left as it was.
\<close>

theorem build_paths_inserts:
  assumes "list_all (\<lambda>ch. \<not> isl (label_triple ch)) chs"
  shows "\<exists>m. build_paths paths chs = Inr m \<and>
           (\<forall>a c f. leaf_at m a c f =
              (let ids = map ch_id (filter (\<lambda>ch. label_triple ch = Inr (f, c, a)) chs)
               in if ids = [] then leaf_at paths a c f
                  else Some ((case leaf_at paths a c f of None \<Rightarrow> [] | Some l \<Rightarrow> l) @ ids)))"
proof (rule build_paths_leaves)
  from assms
  show "list_all (\<lambda>ch. ''label'' \<in> set (map fst (attrs ch)) \<longrightarrow> \<not> isl (label_triple ch)) chs"
    by (simp add: list_all_iff)
qed

theorem build_paths_inserts_witness:
  "\<exists>m. build_paths []
         [\<lparr>ch_id = ''voltage0_i'', attrs = [(''label'', ''F1->C1->A1'')],
           scan_element = True, is_output = False\<rparr>,
          \<lparr>ch_id = ''voltage0_q'', attrs = [(''label'', ''F1->C1->A1'')],
           scan_element = True, is_output = False\<rparr>] = Inr m \<and>
       leaf_at m ''A1'' ''C1'' ''F1'' = Some [''voltage0_i'', ''voltage0_q'']"
proof -
  let ?c1 = "\<lparr>ch_id = ''voltage0_i'', attrs = [(''label'', ''F1->C1->A1'')],
           scan_element = True, is_output = False\<rparr>"
  let ?c2 = "\<lparr>ch_id = ''voltage0_q'', attrs = [(''label'', ''F1->C1->A1'')],
           scan_element = True, is_output = False\<rparr>"
  have t: "label_triple ?c1 = Inr (''F1'', ''C1'', ''A1'')"
          "label_triple ?c2 = Inr (''F1'', ''C1'', ''A1'')"
    by (simp_all add: label_triple_def py_split_def)
  then have h: "list_all (\<lambda>ch. \<not> isl (label_triple ch)) [?c1, ?c2]" by simp
  from build_paths_inserts[OF h, of "[]"] obtain m where
    m: "build_paths [] [?c1, ?c2] = Inr m" and
    l: "\<And>a c f. leaf_at m a c f =
              (let ids = map ch_id (filter (\<lambda>ch. label_triple ch = Inr (f, c, a)) [?c1, ?c2])
               in if ids = [] then leaf_at [] a c f
                  else Some ((case leaf_at [] a c f of None \<Rightarrow> [] | Some l \<Rightarrow> l) @ ids))"
    by blast
  have "leaf_at m ''A1'' ''C1'' ''F1'' = Some [''voltage0_i'', ''voltage0_q'']"
    unfolding l by (simp add: t leaf_at_def)
  with m show ?thesis by blast
qed

text \<open>
  Claim C5, as amended. Channels without a label are skipped by the path-map build:
  the build gives what it gives on the labelled channels alone. When every label that
  is present has three tokens, the build from the empty map succeeds and the leaf
  under a triple holds exactly the identifiers of the channels labelled with that
  triple, so that a channel without a label is under no triple.
\<close>

theorem build_paths_unlabelled_skipped:
  "build_paths paths chs =
     build_paths paths (filter (\<lambda>ch. ''label'' \<in> set (map fst (attrs ch))) chs) \<and>
   (list_all (\<lambda>ch. ''label'' \<in> set (map fst (attrs ch)) \<longrightarrow> \<not> isl (label_triple ch)) chs \<longrightarrow>
      (\<exists>m. build_paths [] chs = Inr m \<and>
           (\<forall>a c f. leaf_at m a c f =
              (case map ch_id (filter (\<lambda>ch. label_triple ch = Inr (f, c, a)) chs) of
                 [] \<Rightarrow> None
               | i # ids \<Rightarrow> Some (i # ids)))))"
proof (intro conjI impI)
  show "build_paths paths chs =
     build_paths paths (filter (\<lambda>ch. ''label'' \<in> set (map fst (attrs ch))) chs)"
    by (rule build_paths_skips_unlabelled)
next
  assume "list_all (\<lambda>ch. ''label'' \<in> set (map fst (attrs ch)) \<longrightarrow> \<not> isl (label_triple ch)) chs"
  from build_paths_leaves[OF this, of "[]"] obtain m where
    m: "build_paths [] chs = Inr m" and
    l: "\<And>a c f. leaf_at m a c f =
              (let ids = map ch_id (filter (\<lambda>ch. label_triple ch = Inr (f, c, a)) chs)
               in if ids = [] then leaf_at [] a c f
                  else Some ((case leaf_at [] a c f of None \<Rightarrow> [] | Some l \<Rightarrow> l) @ ids))"
    by blast
  have "leaf_at m a c f =
              (case map ch_id (filter (\<lambda>ch. label_triple ch = Inr (f, c, a)) chs) of
                 [] \<Rightarrow> None
               | i # ids \<Rightarrow> Some (i # ids))" for a c f
    unfolding l[of a c f] by (simp add: leaf_at_def Let_def split: list.splits)
  with m show "\<exists>m. build_paths [] chs = Inr m \<and>
           (\<forall>a c f. leaf_at m a c f =
              (case map ch_id (filter (\<lambda>ch. label_triple ch = Inr (f, c, a)) chs) of
                 [] \<Rightarrow> None
               | i # ids \<Rightarrow> Some (i # ids)))"
    by blast
qed

theorem build_paths_unlabelled_skipped_witness:
  "build_paths []
     [\<lparr>ch_id = ''altvoltage0'', attrs = [], scan_element = False, is_output = True\<rparr>,
      \<lparr>ch_id = ''voltage0_i'', attrs = [(''label'', ''F1->C1->A1'')],
       scan_element = True, is_output = False\<rparr>] =
   build_paths []
     [\<lparr>ch_id = ''voltage0_i'', attrs = [(''label'', ''F1->C1->A1'')],
       scan_element = True, is_output = False\<rparr>] \<and>
   (\<exists>m. build_paths []
     [\<lparr>ch_id = ''altvoltage0'', attrs = [], scan_element = False, is_output = True\<rparr>,
      \<lparr>ch_id = ''voltage0_i'', attrs = [(''label'', ''F1->C1->A1'')],
       scan_element = True, is_output = False\<rparr>] = Inr m \<and>
      leaf_at m ''A1'' ''C1'' ''F1'' = Some [''voltage0_i''])"
proof -
  let ?u = "\<lparr>ch_id = ''altvoltage0'', attrs = [], scan_element = False, is_output = True\<rparr>"
  let ?c = "\<lparr>ch_id = ''voltage0_i'', attrs = [(''label'', ''F1->C1->A1'')],
       scan_element = True, is_output = False\<rparr>"
  have t: "label_triple ?c = Inr (''F1'', ''C1'', ''A1'')" "label_triple ?u = Inl KeyError"
    by (simp_all add: label_triple_def py_split_def)
  have h: "list_all (\<lambda>ch. ''label'' \<in> set (map fst (attrs ch)) \<longrightarrow> \<not> isl (label_triple ch)) [?u, ?c]"
    by (simp add: t)
  note inst = build_paths_unlabelled_skipped[of "[]" "[?u, ?c]"]
  from inst have skip: "build_paths [] [?u, ?c] = build_paths [] [?c]" by simp
  from inst h obtain m where
    m: "build_paths [] [?u, ?c] = Inr m" and
    l: "\<And>a c f. leaf_at m a c f =
              (case map ch_id (filter (\<lambda>ch. label_triple ch = Inr (f, c, a)) [?u, ?c]) of
                 [] \<Rightarrow> None
               | i # ids \<Rightarrow> Some (i # ids))"
    by blast
  have "leaf_at m ''A1'' ''C1'' ''F1'' = Some [''voltage0_i'']"
    unfolding l by (simp add: t)
  with m skip show ?thesis by blast
qed

text \<open>
  The claim as first stated also has channels with a malformed label skipped without
  error. A label that does not split into three tokens is not skipped: the unpacking
  on line 41 raises \<^verbatim>\<open>ValueError\<close>.
\<close>

theorem build_paths_malformed_label_counterexample:
  "build_paths []
     [\<lparr>ch_id = ''voltage0_i'', attrs = [(''label'', ''ADC0'')],
       scan_element = True, is_output = False\<rparr>] = Inl ValueError"
  by (simp add: map_to_dict_def label_triple_def py_split_def)

section \<open>Properties of the representative lists\<close>

lemma gather_channels_items:
  "(\<And>k e. (k, e) \<in> set ps \<Longrightarrow> map_of fd k = Some e) \<Longrightarrow>
   gather_channels fd (map fst ps) chans = Inr (chans @ concat (map (\<lambda>(fdc, e). channels e) ps))"
proof (induction ps arbitrary: chans)
  case Nil
  show ?case by simp
next
  case (Cons p ps)
  obtain k e where p: "p = (k, e)" by (cases p)
  from Cons.prems[of k e] p have lk: "map_of fd k = Some e" by simp
  from Cons.prems have "\<And>k e. (k, e) \<in> set ps \<Longrightarrow> map_of fd k = Some e" by simp
  from Cons.IH[OF this, of "chans @ channels e"] p lk show ?case by simp
qed

lemma gather_channels_dict:
  "is_dict fd \<Longrightarrow> gather_channels fd (map fst fd) [] = Inr (concat (map (\<lambda>(fdc, e). channels e) fd))"
  using gather_channels_items[of fd fd "[]"] by (simp add: is_dict_def)

lemma gather_channels_total:
  "set ks \<subseteq> fst ` set fd \<Longrightarrow> \<exists>r. gather_channels fd ks chans = Inr r"
proof (induction ks arbitrary: chans)
  case Nil
  show ?case by simp
next
  case (Cons k ks)
  then have "map_of fd k \<noteq> None" by (simp add: map_of_eq_None_iff)
  then obtain e where "map_of fd k = Some e" by blast
  with Cons show ?case by simp
qed

lemma derive_group_dict:
  assumes "is_dict fd"
  shows "derive_group converter fd self =
           (case group_ids fd of
              [] \<Rightarrow> Inl IndexError
            | c0 # cs \<Rightarrow> Inr (append_names (contains ''ADC'' converter) [c0] (c0 # cs) self))"
  by (simp add: derive_group_def gather_channels_dict[OF assms] group_ids_def append_names_def
           split: list.splits)

lemma derive_group_error: "derive_group converter fd self = Inl e \<Longrightarrow> e = IndexError"
proof -
  assume a: "derive_group converter fd self = Inl e"
  from gather_channels_total[of "map fst fd" fd "[]"] obtain r where
    "gather_channels fd (map fst fd) [] = Inr r" by auto
  with a show ?thesis by (auto simp: derive_group_def Let_def split: list.splits if_splits)
qed

lemma derive_cdcs_error:
  "set ks \<subseteq> fst ` set cd \<Longrightarrow> derive_cdcs converter cd ks self = Inl e \<Longrightarrow> e = IndexError"
proof (induction ks arbitrary: self)
  case Nil
  then show ?case by simp
next
  case (Cons k ks)
  then have "map_of cd k \<noteq> None" by (simp add: map_of_eq_None_iff)
  then obtain fd where fd: "map_of cd k = Some fd" by blast
  show ?case
  proof (cases "derive_group converter fd self")
    case (Inl e')
    with Cons.prems fd derive_group_error[OF Inl] show ?thesis by simp
  next
    case (Inr self')
    with Cons.prems fd Cons.IH[of self'] show ?thesis by simp
  qed
qed

lemma derive_cdcs_fails:
  assumes "map_of cd cdc = Some fd" "is_dict fd" "group_ids fd = []"
  shows "set ks \<subseteq> fst ` set cd \<Longrightarrow> cdc \<in> set ks \<Longrightarrow>
         derive_cdcs converter cd ks self = Inl IndexError"
proof (induction ks arbitrary: self)
  case Nil
  then show ?case by simp
next
  case (Cons k ks)
  then have "map_of cd k \<noteq> None" by (simp add: map_of_eq_None_iff)
  then obtain fd' where fd': "map_of cd k = Some fd'" by blast
  show ?case
  proof (cases "derive_group converter fd' self")
    case (Inl e)
    with fd' derive_group_error[OF Inl] show ?thesis by simp
  next
    case (Inr self')
    have "k \<noteq> cdc"
    proof
      assume "k = cdc"
      with fd' assms(1) have "fd' = fd" by simp
      with Inr derive_group_dict[OF assms(2), of converter self] assms(3) show False by simp
    qed
    with Cons.prems have "cdc \<in> set ks" by simp
    with Cons.IH[of self'] Cons.prems(1) have "derive_cdcs converter cd ks self' = Inl IndexError"
      by simp
    with fd' Inr show ?thesis by simp
  qed
qed

lemma derive_converters_fails:
  assumes "map_of paths conv = Some cd" "map_of cd cdc = Some fd" "is_dict fd" "group_ids fd = []"
  shows "set ks \<subseteq> fst ` set paths \<Longrightarrow> conv \<in> set ks \<Longrightarrow>
         derive_converters paths ks self = Inl IndexError"
proof (induction ks arbitrary: self)
  case Nil
  then show ?case by simp
next
  case (Cons k ks)
  then have "map_of paths k \<noteq> None" by (simp add: map_of_eq_None_iff)
  then obtain cd' where cd': "map_of paths k = Some cd'" by blast
  have keys: "set (map fst cd') \<subseteq> fst ` set cd'" by simp
  show ?case
  proof (cases "derive_cdcs k cd' (map fst cd') self")
    case (Inl e)
    with cd' derive_cdcs_error[OF keys Inl] show ?thesis by simp
  next
    case (Inr self')
    have "k \<noteq> conv"
    proof
      assume "k = conv"
      with cd' assms(1) have eq: "cd' = cd" by simp
      from assms(2) have "cdc \<in> set (map fst cd)"
        using map_of_eq_None_iff[of cd cdc] by auto
      from derive_cdcs_fails[OF assms(2) assms(3) assms(4) _ this, of k self] Inr eq
      show False by simp
    qed
    with Cons.prems have "conv \<in> set ks" by simp
    with Cons.IH[of self'] Cons.prems(1) have "derive_converters paths ks self' = Inl IndexError"
      by simp
    with cd' Inr show ?thesis by simp
  qed
qed

lemma append_names_nil: "append_names rx [] [] self = self"
  by (simp add: append_names_def)

lemma append_names_twice:
  "append_names rx c2 f2 (append_names rx c1 f1 self) = append_names rx (c1 @ c2) (f1 @ f2) self"
  by (simp add: append_names_def)

lemma append_names_swap:
  "append_names False c2 f2 (append_names True c1 f1 self) =
   append_names True c1 f1 (append_names False c2 f2 self)"
  by (simp add: append_names_def)

lemma derive_cdcs_items:
  "(\<And>k fd. (k, fd) \<in> set ps \<Longrightarrow> map_of cd k = Some fd \<and> is_dict fd \<and> group_ids fd \<noteq> []) \<Longrightarrow>
   derive_cdcs converter cd (map fst ps) self =
     Inr (append_names (contains ''ADC'' converter) (coarse_names ps) (fine_names ps) self)"
proof (induction ps arbitrary: self)
  case Nil
  show ?case by (simp add: coarse_names_def fine_names_def append_names_nil)
next
  case (Cons p ps)
  obtain k fd where p: "p = (k, fd)" by (cases p)
  from Cons.prems[of k fd] p have lk: "map_of cd k = Some fd" and d: "is_dict fd"
    and ne: "group_ids fd \<noteq> []" by simp_all
  from ne obtain c0 cs where g: "group_ids fd = c0 # cs" by (cases "group_ids fd") auto
  have step: "derive_group converter fd self =
      Inr (append_names (contains ''ADC'' converter) [c0] (c0 # cs) self)"
    by (simp add: derive_group_dict[OF d] g)
  have "map_of cd k' = Some fd' \<and> is_dict fd' \<and> group_ids fd' \<noteq> []"
    if "(k', fd') \<in> set ps" for k' fd'
    using Cons.prems[of k' fd'] that by simp
  from Cons.IH[OF this] show ?case
    by (simp add: p lk step append_names_twice coarse_names_def fine_names_def g)
qed

lemma derive_converters_items:
  "(\<And>k cd. (k, cd) \<in> set ps \<Longrightarrow> map_of paths k = Some cd \<and> is_dict cd \<and>
       list_all (\<lambda>(cdc, fd). is_dict fd \<and> group_ids fd \<noteq> []) cd) \<Longrightarrow>
   derive_converters paths (map fst ps) self =
     Inr (append_names True
            (concat (map (\<lambda>(conv, cd). coarse_names cd) (filter (\<lambda>(conv, cd). contains ''ADC'' conv) ps)))
            (concat (map (\<lambda>(conv, cd). fine_names cd) (filter (\<lambda>(conv, cd). contains ''ADC'' conv) ps)))
          (append_names False
            (concat (map (\<lambda>(conv, cd). coarse_names cd) (filter (\<lambda>(conv, cd). \<not> contains ''ADC'' conv) ps)))
            (concat (map (\<lambda>(conv, cd). fine_names cd) (filter (\<lambda>(conv, cd). \<not> contains ''ADC'' conv) ps)))
            self))"
proof (induction ps arbitrary: self)
  case Nil
  show ?case by (simp add: append_names_nil)
next
  case (Cons p ps)
  obtain k cd where p: "p = (k, cd)" by (cases p)
  from Cons.prems[of k cd] p have lk: "map_of paths k = Some cd" and d: "is_dict cd"
    and gs: "list_all (\<lambda>(cdc, fd). is_dict fd \<and> group_ids fd \<noteq> []) cd" by simp_all
  have "\<And>c fd. (c, fd) \<in> set cd \<Longrightarrow> map_of cd c = Some fd \<and> is_dict fd \<and> group_ids fd \<noteq> []"
    using d gs by (auto simp: is_dict_def list_all_iff)
  from derive_cdcs_items[OF this, of cd k self]
  have step: "derive_cdcs k cd (map fst cd) self =
     Inr (append_names (contains ''ADC'' k) (coarse_names cd) (fine_names cd) self)" by simp
  have rest: "map_of paths k' = Some cd' \<and> is_dict cd' \<and>
       list_all (\<lambda>(cdc, fd). is_dict fd \<and> group_ids fd \<noteq> []) cd'"
    if "(k', cd') \<in> set ps" for k' cd'
    using Cons.prems[of k' cd'] that by simp
  show ?case
  proof (cases "contains ''ADC'' k")
    case True
    with Cons.IH[OF rest] show ?thesis
      by (simp add: p lk step append_names_twice append_names_swap[symmetric])
  next
    case False
    with Cons.IH[OF rest] show ?thesis
      by (simp add: p lk step append_names_twice)
  qed
qed



text \<open>
  Claim C6. When some (converter, coarse-stage) group of the path map has no collected
  identifier that contains \<^verbatim>\<open>_i\<close>, the derivation over the whole map ends in
  \<^verbatim>\<open>IndexError\<close>: the group is neither skipped nor given lists.
\<close>

theorem derive_fails_on_group_without_i:
  assumes "map_of paths conv = Some cd" "map_of cd cdc = Some fd" "is_dict fd" "group_ids fd = []"
  shows "derive_converters paths (map fst paths) self = Inl IndexError"
proof -
  from assms(1) have "conv \<in> set (map fst paths)" using map_of_eq_None_iff[of paths conv] by auto
  with derive_converters_fails[OF assms, of "map fst paths" self] show ?thesis by simp
qed

theorem derive_fails_on_group_without_i_witness:
  "derive_converters
     [(''ADC0'', [(''CDDC0'', [(''FDDC0'', \<lparr>channels = [''voltage0_q'']\<rparr>)])])]
     (map fst [(''ADC0'', [(''CDDC0'', [(''FDDC0'', \<lparr>channels = [''voltage0_q'']\<rparr>)])])])
     (blank ()) = Inl IndexError"
proof -
  let ?fd = "[(''FDDC0'', \<lparr>channels = [''voltage0_q'']\<rparr>)]"
  let ?cd = "[(''CDDC0'', ?fd)]"
  let ?paths = "[(''ADC0'', ?cd)]"
  have a: "map_of ?paths ''ADC0'' = Some ?cd" by simp
  have b: "map_of ?cd ''CDDC0'' = Some ?fd" by simp
  have c: "is_dict ?fd" by (simp add: is_dict_def)
  have e: "group_ids ?fd = []" by (simp add: group_ids_def)
  from derive_fails_on_group_without_i[OF a b c e, of "blank ()"] show ?thesis .
qed

text \<open>
  Claim C7. When every group has an identifier that contains \<^verbatim>\<open>_i\<close>, the derivation
  appends to the receive-side lists exactly the names of the converters whose key
  contains \<^verbatim>\<open>ADC\<close>, and to the transmit-side lists exactly the names of the other
  converters, in the order of the path map: a converter adds to one side only.
\<close>

theorem derive_routes_by_converter:
  assumes "is_dict paths"
    and "list_all (\<lambda>(conv, cd). is_dict cd \<and>
           list_all (\<lambda>(cdc, fd). is_dict fd \<and> group_ids fd \<noteq> []) cd) paths"
  shows "derive_converters paths (map fst paths) self =
     Inr (self\<lparr>
       rx_coarse_ddc_channel_names := rx_coarse_ddc_channel_names self @
         concat (map (\<lambda>(conv, cd). coarse_names cd)
           (filter (\<lambda>(conv, cd). contains ''ADC'' conv) paths)),
       rx_fine_ddc_channel_names := rx_fine_ddc_channel_names self @
         concat (map (\<lambda>(conv, cd). fine_names cd)
           (filter (\<lambda>(conv, cd). contains ''ADC'' conv) paths)),
       tx_coarse_duc_channel_names := tx_coarse_duc_channel_names self @
         concat (map (\<lambda>(conv, cd). coarse_names cd)
           (filter (\<lambda>(conv, cd). \<not> contains ''ADC'' conv) paths)),
       tx_fine_duc_channel_names := tx_fine_duc_channel_names self @
         concat (map (\<lambda>(conv, cd). fine_names cd)
           (filter (\<lambda>(conv, cd). \<not> contains ''ADC'' conv) paths))\<rparr>)"
proof -
  have "\<And>k cd. (k, cd) \<in> set paths \<Longrightarrow> map_of paths k = Some cd \<and> is_dict cd \<and>
       list_all (\<lambda>(cdc, fd). is_dict fd \<and> group_ids fd \<noteq> []) cd"
    using assms by (auto simp: is_dict_def list_all_iff)
  from derive_converters_items[OF this, of paths self] show ?thesis
    by (simp add: append_names_def)
qed

theorem derive_routes_by_converter_witness:
  "derive_converters
     [(''ADC0'', [(''CDDC0'', [(''FDDC0'', \<lparr>channels = [''voltage0_i'', ''voltage0_q'']\<rparr>),
                               (''FDDC1'', \<lparr>channels = [''voltage1_i'', ''voltage1_q'']\<rparr>)])]),
      (''DAC0'', [(''CDUC0'', [(''FDUC0'', \<lparr>channels = [''voltage2_i'', ''voltage2_q'']\<rparr>)])])]
     [''ADC0'', ''DAC0''] (blank ()) =
   Inr ((blank ())\<lparr>rx_coarse_ddc_channel_names := [''voltage0_i''],
                    rx_fine_ddc_channel_names := [''voltage0_i'', ''voltage1_i''],
                    tx_coarse_duc_channel_names := [''voltage2_i''],
                    tx_fine_duc_channel_names := [''voltage2_i'']\<rparr>)"
proof -
  let ?paths = "[(''ADC0'', [(''CDDC0'', [(''FDDC0'', \<lparr>channels = [''voltage0_i'', ''voltage0_q'']\<rparr>),
                               (''FDDC1'', \<lparr>channels = [''voltage1_i'', ''voltage1_q'']\<rparr>)])]),
      (''DAC0'', [(''CDUC0'', [(''FDUC0'', \<lparr>channels = [''voltage2_i'', ''voltage2_q'']\<rparr>)])])]"
  have a: "is_dict ?paths" by (simp add: is_dict_def)
  have b: "list_all (\<lambda>(conv, cd). is_dict cd \<and>
           list_all (\<lambda>(cdc, fd). is_dict fd \<and> group_ids fd \<noteq> []) cd) ?paths"
    by (simp add: is_dict_def group_ids_def)
  from derive_routes_by_converter[OF a b, of "blank ()"] show ?thesis
    by (simp add: blank_def coarse_names_def fine_names_def group_ids_def)
qed

section \<open>Properties of the attribute accessors\<close>

text \<open>
  Claim C4. The setter of \<^verbatim>\<open>tx_main_ffh_frequency\<close> reads \<^verbatim>\<open>tx_main_ffh_index\<close>
  (attribute \<^verbatim>\<open>main_ffh_index\<close> of output channel \<^verbatim>\<open>voltage0_i\<close>). If it reads zero the
  setter raises the exception that names the precondition and returns the object as
  it was, device included; if it reads another value the outcome is that of writing
  \<^verbatim>\<open>main_ffh_frequency\<close>; if the read itself fails, so does the setter, with nothing
  written.
\<close>

theorem ffh_frequency_guard:
  "(get_tx_main_ffh_index L self = Inr (Num 0) \<longrightarrow>
      set_tx_main_ffh_frequency L v self =
        (Inl (Exception ''To set a FFH NCO bank frequency, tx_main_ffh_index must > 0''), self)) \<and>
   (\<forall>idx. get_tx_main_ffh_index L self = Inr idx \<and> idx \<noteq> Num 0 \<longrightarrow>
      set_tx_main_ffh_frequency L v self =
        (fst (set_iio_attr L (ctrl self) ''voltage0_i'' ''main_ffh_frequency'' True v),
         self\<lparr>ctrl := snd (set_iio_attr L (ctrl self) ''voltage0_i'' ''main_ffh_frequency'' True v)\<rparr>)) \<and>
   (\<forall>e. get_tx_main_ffh_index L self = Inl e \<longrightarrow>
      set_tx_main_ffh_frequency L v self = (Inl e, self)) \<and>
   get_tx_main_ffh_index L self = get_iio_attr L (ctrl self) ''voltage0_i'' ''main_ffh_index'' True"
  by (simp add: set_tx_main_ffh_frequency_def write_ctrl_def get_tx_main_ffh_index_def)

theorem ffh_frequency_guard_witness:
  "set_tx_main_ffh_frequency store_layer (Num 2000) (blank (bank_device 0)) =
     (Inl (Exception ''To set a FFH NCO bank frequency, tx_main_ffh_index must > 0''),
      blank (bank_device 0)) \<and>
   set_tx_main_ffh_frequency store_layer (Num 2000) (blank (bank_device 3)) =
     (Inr (), blank
        \<lparr>chan_attrs = [((''voltage0_i'', ''main_ffh_index'', True), Num 3),
                       ((''voltage0_i'', ''main_ffh_frequency'', True), Num 2000)],
         dev_attrs = [(''loopback_mode'', Num 0)]\<rparr>)"
proof -
  have z: "get_tx_main_ffh_index store_layer (blank (bank_device 0)) = Inr (Num 0)"
    by (simp add: get_tx_main_ffh_index_def store_layer_def store_get_def blank_def bank_device_def)
  have n: "get_tx_main_ffh_index store_layer (blank (bank_device 3)) = Inr (Num 3) \<and> Num 3 \<noteq> Num 0"
    by (simp add: get_tx_main_ffh_index_def store_layer_def store_get_def blank_def bank_device_def)
  from ffh_frequency_guard[of store_layer "blank (bank_device 0)" "Num 2000"] z
       ffh_frequency_guard[of store_layer "blank (bank_device 3)" "Num 2000"] n
  show ?thesis
    by (simp add: store_layer_def store_set_def blank_def bank_device_def)
qed

lemmas accessor_defs =
  get_path_map_def
  get_rx_channel_nco_frequencies_def set_rx_channel_nco_frequencies_def
  get_rx_channel_nco_phases_def set_rx_channel_nco_phases_def
  get_rx_main_nco_frequencies_def set_rx_main_nco_frequencies_def
  get_rx_main_nco_phases_def set_rx_main_nco_phases_def
  get_tx_channel_nco_frequencies_def set_tx_channel_nco_frequencies_def
  get_tx_channel_nco_phases_def set_tx_channel_nco_phases_def
  get_tx_main_nco_frequencies_def set_tx_main_nco_frequencies_def
  get_tx_main_nco_phases_def set_tx_main_nco_phases_def
  get_rx_test_mode_def set_rx_test_mode_def
  get_rx_nyquist_zone_def set_rx_nyquist_zone_def
  get_tx_main_ffh_frequency_def set_tx_main_ffh_frequency_def
  get_tx_main_ffh_index_def set_tx_main_ffh_index_def
  get_tx_main_ffh_mode_def set_tx_main_ffh_mode_def
  get_loopback_mode_def set_loopback_mode_def
  get_rx_sampling_frequency_def get_adc_frequency_def
  get_tx_sampling_frequency_def get_dac_frequency_def

lemma run_op_only_ctrl: "\<exists>d. snd (run_op L op self) = self\<lparr>ctrl := d\<rparr>"
proof -
  have same: "\<exists>d. self = self\<lparr>ctrl := d\<rparr>" by (rule exI[of _ "ctrl self"]) simp
  have upd: "\<exists>d. self\<lparr>ctrl := x\<rparr> = self\<lparr>ctrl := d\<rparr>" for x by blast
  show ?thesis
    by (cases op)
       (simp_all add: returned_def written_def write_ctrl_def accessor_defs same upd
          split: sum.splits)
qed

text \<open>
  Claim C9. Whatever the attribute layer does to the device, every property access
  leaves the object as it was except for the device state: the path map and the
  channel-name lists are unchanged.
\<close>

theorem facade_keeps_topology:
  "(\<exists>d. snd (run_op L op self) = self\<lparr>ctrl := d\<rparr>) \<and>
   path_map (snd (run_op L op self)) = path_map self \<and>
   rx_channel_names (snd (run_op L op self)) = rx_channel_names self \<and>
   tx_channel_names (snd (run_op L op self)) = tx_channel_names self \<and>
   dds_channel_names (snd (run_op L op self)) = dds_channel_names self \<and>
   rx_coarse_ddc_channel_names (snd (run_op L op self)) = rx_coarse_ddc_channel_names self \<and>
   tx_coarse_duc_channel_names (snd (run_op L op self)) = tx_coarse_duc_channel_names self \<and>
   rx_fine_ddc_channel_names (snd (run_op L op self)) = rx_fine_ddc_channel_names self \<and>
   tx_fine_duc_channel_names (snd (run_op L op self)) = tx_fine_duc_channel_names self"
proof -
  from run_op_only_ctrl[of L op self] obtain d where d: "snd (run_op L op self) = self\<lparr>ctrl := d\<rparr>"
    by blast
  show ?thesis unfolding d by (simp add: exI[of _ d])
qed

theorem facade_keeps_topology_witness:
  "path_map (snd (run_op store_layer (Set_tx_main_ffh_index (Num 3))
      ((blank (bank_device 0))\<lparr>path_map := [(''ADC0'', [])], rx_channel_names := [''voltage0_i'']\<rparr>))) =
     [(''ADC0'', [])] \<and>
   rx_channel_names (snd (run_op store_layer (Set_tx_main_ffh_index (Num 3))
      ((blank (bank_device 0))\<lparr>path_map := [(''ADC0'', [])], rx_channel_names := [''voltage0_i'']\<rparr>))) =
     [''voltage0_i'']"
  using facade_keeps_topology[of store_layer "Set_tx_main_ffh_index (Num 3)"
      "(blank (bank_device 0))\<lparr>path_map := [(''ADC0'', [])], rx_channel_names := [''voltage0_i'']\<rparr>"]
  by simp

section \<open>The constructor on an example\<close>

text \<open>
  A receive device with one complex channel on a converter \<^verbatim>\<open>ADC0\<close> and one labelled
  output channel on \<^verbatim>\<open>DAC0\<close>, and a transmit device with one complex data channel and
  two DDS channels, each listed out of order.
\<close>

lemma init_example:
  "init \<lparr>rxadc = [\<lparr>ch_id = ''voltage0_q'', attrs = [(''label'', ''FDDC0->CDDC0->ADC0'')], scan_element = True, is_output = False\<rparr>,
                  \<lparr>ch_id = ''voltage0_i'', attrs = [(''label'', ''FDDC0->CDDC0->ADC0'')], scan_element = True, is_output = False\<rparr>,
                  \<lparr>ch_id = ''voltage0_i'', attrs = [(''label'', ''FDUC0->CDUC0->DAC0'')], scan_element = False, is_output = True\<rparr>],
         txdac = [\<lparr>ch_id = ''voltage0_q'', attrs = [], scan_element = True, is_output = True\<rparr>,
                  \<lparr>ch_id = ''voltage0_i'', attrs = [], scan_element = True, is_output = True\<rparr>,
                  \<lparr>ch_id = ''altvoltage1'', attrs = [], scan_element = False, is_output = True\<rparr>,
                  \<lparr>ch_id = ''altvoltage0'', attrs = [], scan_element = False, is_output = True\<rparr>]\<rparr>
        (blank ()) =
   Inr \<lparr>path_map = [(''ADC0'', [(''CDDC0'', [(''FDDC0'', \<lparr>channels = [''voltage0_q'', ''voltage0_i'']\<rparr>)])]),
                    (''DAC0'', [(''CDUC0'', [(''FDUC0'', \<lparr>channels = [''voltage0_i'']\<rparr>)])])],
        rx_channel_names = [''voltage0_i'', ''voltage0_q''],
        tx_channel_names = [''voltage0_i'', ''voltage0_q''],
        tx_control_channel_names = [],
        rx_coarse_ddc_channel_names = [''voltage0_i''],
        tx_coarse_duc_channel_names = [''voltage0_i''],
        rx_fine_ddc_channel_names = [''voltage0_i''],
        tx_fine_duc_channel_names = [''voltage0_i''],
        dds_channel_names = [''altvoltage0'', ''altvoltage1''],
        rx_buffer_size = 65536, ctrl = ()\<rparr>"
  by code_simp

end
